theory Spec2Isabelle
  imports Complex_Main "HOL-Library.Sublist" "HOL-Library.Multiset"
begin

section \<open>Strings and numbers of the source language\<close>

text \<open>
  The services are JavaScript. Strings are modelled as \<open>string\<close> and the case mapping
  is the ASCII one (the letters A to Z), which is what \<open>toLowerCase\<close> does on the
  texts of the record set. Numbers are modelled as \<open>real\<close> (ratings, coordinates,
  distances), \<open>nat\<close> (review counts) and \<open>int\<close> (page and limit); the rounding of
  IEEE doubles is not modelled.
\<close>

definition lower_char :: "char \<Rightarrow> char" where
  "lower_char c =
     (case map_of (zip ''ABCDEFGHIJKLMNOPQRSTUVWXYZ'' ''abcdefghijklmnopqrstuvwxyz'') c of
        Some l \<Rightarrow> l | None \<Rightarrow> c)"

definition toLowerCase :: "string \<Rightarrow> string" where
  "toLowerCase s = map lower_char s"

text \<open>\<open>s.includes(t)\<close>: \<open>t\<close> occurs in \<open>s\<close> as a contiguous substring.\<close>

fun str_includes :: "string \<Rightarrow> string \<Rightarrow> bool" where
  "str_includes [] t = (t = [])"
| "str_includes (c # s) t = (prefix t (c # s) \<or> str_includes s t)"

text \<open>\<open>s.startsWith(t)\<close>.\<close>

definition startsWith :: "string \<Rightarrow> string \<Rightarrow> bool" where
  "startsWith s t = prefix t s"

text \<open>
  An optional value is \<open>None\<close> where the source has \<open>undefined\<close>. In a condition,
  \<open>undefined\<close>, the empty string and zero are falsy, so a test \<open>if (x)\<close> on an optional
  string reads \<open>Some s\<close> with \<open>s \<noteq> []\<close>, and on an optional number \<open>Some n\<close> with
  \<open>n \<noteq> 0\<close>.
\<close>

section \<open>Data model\<close>

record review =
  review_id :: string
  userId :: string
  userName :: string
  review_rating :: real
  title :: string
  content :: string

text \<open>
  A preschool object. Fields that some records lack, or that the code tests before
  use, are optional; coordinates are numbers. \<open>distance\<close> and \<open>matchReasons\<close> are
  the two request-scoped attributes, which the nearby and the recommendation flow set on
  the copies they return.
\<close>

record preschool =
  id_field :: string
  name :: string
  description :: string
  address :: string
  city :: "string option"
  zip_code :: "string option"
  county :: "string option"
  latitude :: "real option"
  longitude :: "real option"
  phone :: string
  website :: string
  rating :: real
  reviewCount :: nat
  tuition :: "string option"
  hours :: string
  ageRange :: "string option"
  curriculum :: "string option"
  program_type :: "string option"
  features :: "string list option"
  images :: "string list"
  reviews :: "review list"
  distance :: "real option"
  matchReasons :: "string list option"

record preferences =
  pref_location :: "string option"
  pref_minRating :: "real option"
  pref_curriculum :: "string option"

section \<open>Match reasons\<close>

text \<open>
  \<open>p.curriculum && p.curriculum.toLowerCase().includes(wanted.toLowerCase())\<close>, the
  test shared by the curriculum filters and the curriculum reason.
\<close>

fun curriculum_includes :: "string option \<Rightarrow> string \<Rightarrow> bool" where
  "curriculum_includes None wanted = False"
| "curriculum_includes (Some c) wanted =
     (c \<noteq> [] \<and> str_includes (toLowerCase c) (toLowerCase wanted))"

text \<open>
  \<open>generateMatchReasons\<close>: the array \<open>reasons\<close> starts empty and each statement of
  the source pushes at most one string to its end.
\<close>

definition generateMatchReasons :: "preschool \<Rightarrow> preferences \<Rightarrow> string list" where
  "generateMatchReasons p prefs =
     (let reasons0 = [];
          reasons1 =
            (if rating p \<ge> 4.5 then reasons0 @ [''Top-rated preschool'']
             else if rating p \<ge> 4.0 then reasons0 @ [''Highly rated by parents'']
             else reasons0);
          reasons2 =
            (case pref_curriculum prefs of
               None \<Rightarrow> reasons1
             | Some wanted \<Rightarrow>
                 if wanted \<noteq> [] \<and> curriculum_includes (curriculum p) wanted
                 then reasons1 @ [''Offers '' @ (case curriculum p of Some c \<Rightarrow> c | None \<Rightarrow> []) @ '' curriculum'']
                 else reasons1);
          reasons3 =
            (if reviewCount p > 50 then reasons2 @ [''Popular with many positive reviews'']
             else reasons2);
          reasons4 =
            (if program_type p = Some ''CSPP'' \<or> startsWith (id_field p) ''CSPP_''
             then reasons3 @ [''California State Preschool Program'']
             else reasons3);
          reasons5 =
            (case features p of
               Some (feature # rest) \<Rightarrow> reasons4 @ [''Offers '' @ feature]
             | _ \<Rightarrow> reasons4)
      in if length reasons5 = 0 then reasons5 @ [''Matches your preferences'']
         else reasons5)"

text \<open>
  The six rules as the specification words them: each of the first five yields zero or
  one string, the sixth is the fallback.
\<close>

definition rule_rating :: "preschool \<Rightarrow> string list" where
  "rule_rating p =
     (if rating p \<ge> 4.5 then [''Top-rated preschool'']
      else if rating p \<ge> 4.0 then [''Highly rated by parents'']
      else [])"

definition rule_curriculum :: "preschool \<Rightarrow> preferences \<Rightarrow> string list" where
  "rule_curriculum p prefs =
     (case (pref_curriculum prefs, curriculum p) of
        (Some wanted, Some c) \<Rightarrow>
          if wanted \<noteq> [] \<and> c \<noteq> [] \<and> str_includes (toLowerCase c) (toLowerCase wanted)
          then [''Offers '' @ c @ '' curriculum''] else []
      | _ \<Rightarrow> [])"

definition rule_popular :: "preschool \<Rightarrow> string list" where
  "rule_popular p = (if reviewCount p > 50 then [''Popular with many positive reviews''] else [])"

definition rule_cspp :: "preschool \<Rightarrow> string list" where
  "rule_cspp p =
     (if program_type p = Some ''CSPP'' \<or> prefix ''CSPP_'' (id_field p)
      then [''California State Preschool Program''] else [])"

definition rule_feature :: "preschool \<Rightarrow> string list" where
  "rule_feature p =
     (case features p of
        None \<Rightarrow> []
      | Some fs \<Rightarrow> (if fs = [] then [] else [''Offers '' @ hd fs]))"

definition reasons_spec :: "preschool \<Rightarrow> preferences \<Rightarrow> string list" where
  "reasons_spec p prefs =
     (let fired = rule_rating p @ rule_curriculum p prefs @ rule_popular p @ rule_cspp p
                  @ rule_feature p
      in if fired = [] then [''Matches your preferences''] else fired)"

text \<open>The record of example scenario 5 of the specification; unnamed fields are empty.\<close>

definition blank_preschool :: preschool where
  "blank_preschool =
     \<lparr> id_field = [], name = [], description = [], address = [], city = None,
       zip_code = None, county = None, latitude = None, longitude = None, phone = [],
       website = [], rating = 0, reviewCount = 0, tuition = None, hours = [],
       ageRange = None, curriculum = None, program_type = None, features = None,
       images = [], reviews = [], distance = None, matchReasons = None \<rparr>"

definition scenario5_record :: preschool where
  "scenario5_record =
     blank_preschool \<lparr> rating := 4.9, reviewCount := 60, features := Some [''Organic meals''] \<rparr>"

definition no_preferences :: preferences where
  "no_preferences = \<lparr> pref_location = None, pref_minRating = None, pref_curriculum = None \<rparr>"

section \<open>Search: filtering and pagination\<close>

datatype error = ServiceNotSet | TypeError

record filters =
  filter_minRating :: "real option"
  filter_ageRange :: "string option"
  filter_curriculum :: "string option"
  filter_priceRange :: "string option"

text \<open>
  The built-in record set that \<open>getMockPreschools\<close> returns when the warehouse has no
  data. Its six records carry no city, postal code, county, coordinates or program type.
\<close>

definition mock_record ::
  "string \<Rightarrow> string \<Rightarrow> string \<Rightarrow> string \<Rightarrow> string \<Rightarrow> string \<Rightarrow> real \<Rightarrow> nat \<Rightarrow> string
   \<Rightarrow> string \<Rightarrow> string \<Rightarrow> string \<Rightarrow> string list \<Rightarrow> string list \<Rightarrow> review list \<Rightarrow> preschool" where
  "mock_record i n d a ph w r rc t h ar c im fe rv =
     \<lparr> id_field = i, name = n, description = d, address = a, city = None,
       zip_code = None, county = None, latitude = None, longitude = None, phone = ph,
       website = w, rating = r, reviewCount = rc, tuition = Some t, hours = h,
       ageRange = Some ar, curriculum = Some c, program_type = None, features = Some fe,
       images = im, reviews = rv, distance = None, matchReasons = None \<rparr>"

definition mock_p1 :: preschool where
  "mock_p1 = mock_record ''p1'' ''Sunshine Preschool''
     ''A nurturing environment where children learn through play and discovery. Our curriculum focuses on social-emotional development, early literacy, and STEM exploration.''
     ''123 Main St, Palo Alto, CA 94301'' ''(650) 555-1234''
     ''https://sunshinepreschool.example.com'' 4.7 128 ''$1,500-$1,800/month''
     ''Monday-Friday: 7:30am-6:00pm'' ''2-5 years'' ''Play-based, Montessori-inspired''
     [''https://example.com/images/sunshine1.jpg'', ''https://example.com/images/sunshine2.jpg'',
      ''https://example.com/images/sunshine3.jpg'']
     [''Outdoor playground'', ''Organic meals included'', ''Multilingual staff'',
      ''Music and art programs'']
     [\<lparr> review_id = ''r1'', userId = ''u1'', userName = ''Jennifer K.'', review_rating = 5,
        title = ''Excellent preschool with caring teachers'',
        content = ''My daughter has been attending Sunshine for a year now and she loves it. The teachers are warm and attentive, and the facilities are clean and well-maintained.'' \<rparr>]"

definition mock_p2 :: preschool where
  "mock_p2 = mock_record ''p2'' ''Little Explorers Academy''
     ''An innovative preschool focused on project-based learning and outdoor education. We encourage children to explore, question, and discover through hands-on activities.''
     ''456 Oak Ave, Menlo Park, CA 94025'' ''(650) 555-5678''
     ''https://littleexplorers.example.com'' 4.5 85 ''$1,700-$2,000/month''
     ''Monday-Friday: 8:00am-5:30pm'' ''18 months-5 years'' ''Reggio Emilia, Project-based''
     [''https://example.com/images/explorers1.jpg'', ''https://example.com/images/explorers2.jpg'',
      ''https://example.com/images/explorers3.jpg'']
     [''Nature-based learning'', ''Large outdoor space'', ''STEM curriculum'', ''Field trips'']
     [\<lparr> review_id = ''r2'', userId = ''u2'', userName = ''Michael T.'', review_rating = 4,
        title = ''Great curriculum and outdoor activities'',
        content = ''The project-based learning approach is fantastic. My son is always excited to tell me about what he did at school. The only downside is the limited parking during pickup times.'' \<rparr>]"

definition mock_p3 :: preschool where
  "mock_p3 = mock_record ''p3'' ''Montessori Garden''
     ''A true Montessori experience with certified teachers and a carefully prepared environment. Children progress at their own pace through individualized learning plans.''
     ''789 Pine Ln, Palo Alto, CA 94303'' ''(650) 555-9012''
     ''https://montessorigarden.example.com'' 4.8 156 ''$1,900-$2,200/month''
     ''Monday-Friday: 7:00am-6:30pm'' ''18 months-6 years'' ''Authentic Montessori''
     [''https://example.com/images/montessori1.jpg'', ''https://example.com/images/montessori2.jpg'',
      ''https://example.com/images/montessori3.jpg'']
     [''AMI-certified teachers'', ''Montessori materials'', ''Mixed-age classrooms'',
      ''Foreign language instruction'']
     [\<lparr> review_id = ''r3'', userId = ''u3'', userName = ''Sarah L.'', review_rating = 5,
        title = ''Outstanding Montessori program'',
        content = ''The authentic Montessori approach has been wonderful for my child's development. Teachers are knowledgeable and caring. My only wish is that they had an elementary program as well!'' \<rparr>]"

definition mock_p4 :: preschool where
  "mock_p4 = mock_record ''p4'' ''Bright Horizons''
     ''A national chain with a strong local presence, offering balanced education for children with a focus on social development and kindergarten readiness.''
     ''321 Maple Dr, Menlo Park, CA 94025'' ''(650) 555-3456''
     ''https://brighthorizons.example.com'' 4.3 210 ''$1,600-$1,900/month''
     ''Monday-Friday: 6:30am-7:00pm'' ''6 weeks-5 years'' ''Balanced learning approach''
     [''https://example.com/images/horizons1.jpg'', ''https://example.com/images/horizons2.jpg'',
      ''https://example.com/images/horizons3.jpg'']
     [''Extended hours'', ''Infant care available'', ''Summer programs'', ''Corporate partnerships'']
     [\<lparr> review_id = ''r4'', userId = ''u4'', userName = ''David R.'', review_rating = 4,
        title = ''Reliable and convenient'',
        content = ''As working parents, we appreciate the flexible hours and reliable care. The curriculum is solid and our daughter has made good progress with her letters and numbers.'' \<rparr>]"

definition mock_p5 :: preschool where
  "mock_p5 = mock_record ''p5'' ''Creative Kids Cooperative''
     ''A parent-participation preschool where families are actively involved in the classroom. Emphasizes creativity, community, and parent education.''
     ''567 Willow Way, Palo Alto, CA 94306'' ''(650) 555-7890''
     ''https://creativekidscoop.example.com'' 4.6 72 ''$900-$1,200/month''
     ''Monday-Friday: 9:00am-1:00pm, Extended care until 3:00pm'' ''2-5 years''
     ''Play-based, Cooperative''
     [''https://example.com/images/creative1.jpg'', ''https://example.com/images/creative2.jpg'',
      ''https://example.com/images/creative3.jpg'']
     [''Parent participation'', ''Lower tuition'', ''Strong community'', ''Art-focused curriculum'']
     [\<lparr> review_id = ''r5'', userId = ''u5'', userName = ''Emily W.'', review_rating = 5,
        title = ''Wonderful community experience'',
        content = ''The co-op model has been perfect for our family. I love being involved in the classroom and my son has thrived in this loving environment. The parent education nights are an added bonus.'' \<rparr>]"

definition mock_p6 :: preschool where
  "mock_p6 = mock_record ''p6'' ''Little Scholars Preparatory''
     ''An academically-focused preschool that prepares children for success in elementary school through structured learning activities and assessments.''
     ''890 Cedar St, Menlo Park, CA 94025'' ''(650) 555-2345''
     ''https://littlescholars.example.com'' 4.2 95 ''$2,000-$2,300/month''
     ''Monday-Friday: 8:30am-5:00pm'' ''3-5 years'' ''Academic, Structured''
     [''https://example.com/images/scholars1.jpg'', ''https://example.com/images/scholars2.jpg'',
      ''https://example.com/images/scholars3.jpg'']
     [''Academic readiness focus'', ''Regular assessments'', ''Reading and math programs'',
      ''Computer lab'']
     [\<lparr> review_id = ''r6'', userId = ''u6'', userName = ''Robert M.'', review_rating = 4,
        title = ''Strong academic foundation'',
        content = ''If you're looking for a preschool that will prepare your child academically, this is it. Our son was reading basic words before kindergarten. The environment is more structured than other preschools, which worked well for our child.'' \<rparr>]"

definition mock_preschools :: "preschool list" where
  "mock_preschools = [mock_p1, mock_p2, mock_p3, mock_p4, mock_p5, mock_p6]"

text \<open>
  \<open>getMockPreschools\<close>: the warehouse data (the array \<open>getAllPreschools\<close> reads from
  the imported JSON file, a parameter here) when it is not empty, the built-in set
  otherwise.
\<close>

definition getMockPreschools :: "preschool list \<Rightarrow> preschool list" where
  "getMockPreschools warehouseData =
     (if length warehouseData > 0 then warehouseData else mock_preschools)"

text \<open>The callback of the text-query filter; \<open>lowerQuery\<close> is already lower-cased.\<close>

definition matches_query :: "string \<Rightarrow> preschool \<Rightarrow> bool" where
  "matches_query lowerQuery p =
     (str_includes (toLowerCase (name p)) lowerQuery \<or>
      str_includes (toLowerCase (description p)) lowerQuery \<or>
      str_includes (toLowerCase (address p)) lowerQuery \<or>
      (case curriculum p of
         None \<Rightarrow> False
       | Some c \<Rightarrow> c \<noteq> [] \<and> str_includes (toLowerCase c) lowerQuery))"

text \<open>\<open>field && field.includes(wanted)\<close>, used for the age range and the tuition.\<close>

fun field_includes :: "string option \<Rightarrow> string \<Rightarrow> bool" where
  "field_includes None wanted = False"
| "field_includes (Some s) wanted = (s \<noteq> [] \<and> str_includes s wanted)"

text \<open>
  The variable \<open>filtered\<close> of \<open>searchPreschools\<close>: a copy of the record set, replaced
  by a filtered array for each criterion that is truthy.
\<close>

definition search_filtered :: "preschool list \<Rightarrow> string option \<Rightarrow> filters \<Rightarrow> preschool list" where
  "search_filtered allPreschools query f =
     (let filtered0 = allPreschools;
          filtered1 =
            (case query of
               None \<Rightarrow> filtered0
             | Some q \<Rightarrow>
                 if q \<noteq> [] then filter (matches_query (toLowerCase q)) filtered0
                 else filtered0);
          filtered2 =
            (case filter_minRating f of
               None \<Rightarrow> filtered1
             | Some m \<Rightarrow>
                 if m \<noteq> 0 then filter (\<lambda>p. rating p \<ge> m) filtered1 else filtered1);
          filtered3 =
            (case filter_ageRange f of
               None \<Rightarrow> filtered2
             | Some a \<Rightarrow>
                 if a \<noteq> [] then filter (\<lambda>p. field_includes (ageRange p) a) filtered2
                 else filtered2);
          filtered4 =
            (case filter_curriculum f of
               None \<Rightarrow> filtered3
             | Some c \<Rightarrow>
                 if c \<noteq> [] then filter (\<lambda>p. curriculum_includes (curriculum p) c) filtered3
                 else filtered3)
      in (case filter_priceRange f of
            None \<Rightarrow> filtered4
          | Some t \<Rightarrow>
              if t \<noteq> [] then filter (\<lambda>p. field_includes (tuition p) t) filtered4
              else filtered4))"

text \<open>
  \<open>Array.prototype.slice(start, stop)\<close> on integer arguments: a negative index counts
  from the end, and both bounds are clamped to the array.
\<close>

definition slice :: "'a list \<Rightarrow> int \<Rightarrow> int \<Rightarrow> 'a list" where
  "slice xs start stop =
     (let len = int (length xs);
          k = (if start < 0 then max (len + start) 0 else min start len);
          final = (if stop < 0 then max (len + stop) 0 else min stop len)
      in take (nat (final - k)) (drop (nat k) xs))"

text \<open>
  The value of \<open>Math.ceil(length / limit)\<close>: the division of a positive length by zero
  is \<open>Infinity\<close> and of zero by zero is \<open>NaN\<close>, and neither raises.
\<close>

datatype jsnum = Finite int | Infinity | NaN

definition ceil_quotient :: "nat \<Rightarrow> int \<Rightarrow> jsnum" where
  "ceil_quotient n limit =
     (if limit = 0 then (if n = 0 then NaN else Infinity)
      else Finite \<lceil>real n / real_of_int limit\<rceil>)"

record search_result =
  results :: "preschool list"
  totalCount :: nat
  page :: int
  totalPages :: jsnum

text \<open>The pagination step that ends \<open>searchPreschools\<close>.\<close>

definition paginate :: "preschool list \<Rightarrow> int \<Rightarrow> int \<Rightarrow> search_result" where
  "paginate filtered pg limit =
     (let startIndex = (pg - 1) * limit;
          endIndex = pg * limit;
          paginatedResults = slice filtered startIndex endIndex
      in \<lparr> results = paginatedResults, totalCount = length filtered, page = pg,
           totalPages = ceil_quotient (length filtered) limit \<rparr>)"

text \<open>
  \<open>searchPreschools\<close> with mock data: it throws when no recommendation service was
  injected (\<open>None\<close>); otherwise the service holds the warehouse data.
\<close>

definition searchPreschools ::
  "preschool list option \<Rightarrow> string option \<Rightarrow> filters \<Rightarrow> int \<Rightarrow> int \<Rightarrow> error + search_result" where
  "searchPreschools recommendationService query f pg limit =
     (case recommendationService of
        None \<Rightarrow> Inl ServiceNotSet
      | Some warehouseData \<Rightarrow>
          Inr (paginate (search_filtered (getMockPreschools warehouseData) query f) pg limit))"

text \<open>
  The criteria as one predicate each. A criterion that is absent, empty or zero is
  inactive and holds of every record.
\<close>

definition crit_query :: "string option \<Rightarrow> preschool \<Rightarrow> bool" where
  "crit_query query p =
     (case query of None \<Rightarrow> True
      | Some q \<Rightarrow> if q = [] then True else matches_query (toLowerCase q) p)"

definition crit_minRating :: "filters \<Rightarrow> preschool \<Rightarrow> bool" where
  "crit_minRating f p =
     (case filter_minRating f of None \<Rightarrow> True
      | Some m \<Rightarrow> if m = 0 then True else rating p \<ge> m)"

definition crit_ageRange :: "filters \<Rightarrow> preschool \<Rightarrow> bool" where
  "crit_ageRange f p =
     (case filter_ageRange f of None \<Rightarrow> True
      | Some a \<Rightarrow> if a = [] then True else field_includes (ageRange p) a)"

text \<open>The age-range criterion as the specification words it: case-insensitive.\<close>

definition crit_ageRange_spec :: "filters \<Rightarrow> preschool \<Rightarrow> bool" where
  "crit_ageRange_spec f p =
     (case filter_ageRange f of None \<Rightarrow> True
      | Some a \<Rightarrow>
          if a = [] then True
          else (case ageRange p of None \<Rightarrow> False
                | Some r \<Rightarrow> str_includes (toLowerCase r) (toLowerCase a)))"

definition crit_curriculum :: "filters \<Rightarrow> preschool \<Rightarrow> bool" where
  "crit_curriculum f p =
     (case filter_curriculum f of None \<Rightarrow> True
      | Some c \<Rightarrow> if c = [] then True else curriculum_includes (curriculum p) c)"

definition crit_priceRange :: "filters \<Rightarrow> preschool \<Rightarrow> bool" where
  "crit_priceRange f p =
     (case filter_priceRange f of None \<Rightarrow> True
      | Some t \<Rightarrow> if t = [] then True else field_includes (tuition p) t)"

definition search_criteria :: "string option \<Rightarrow> filters \<Rightarrow> preschool \<Rightarrow> bool" where
  "search_criteria query f p =
     (crit_query query p \<and> crit_minRating f p \<and> crit_ageRange f p \<and> crit_curriculum f p
      \<and> crit_priceRange f p)"

definition search_criteria_spec :: "string option \<Rightarrow> filters \<Rightarrow> preschool \<Rightarrow> bool" where
  "search_criteria_spec query f p =
     (crit_query query p \<and> crit_minRating f p \<and> crit_ageRange_spec f p
      \<and> crit_curriculum f p \<and> crit_priceRange f p)"

definition no_filters :: filters where
  "no_filters = \<lparr> filter_minRating = None, filter_ageRange = None, filter_curriculum = None,
                   filter_priceRange = None \<rparr>"

section \<open>Sorting with a comparator\<close>

text \<open>
  \<open>Array.prototype.sort(compare)\<close> orders by the comparator and is stable. The engine's
  algorithm is not part of the repository; the model is the stable insertion sort that
  the comparator drives: an element goes before the first element that the comparator
  does not put in front of it.
\<close>

fun insert_cmp :: "('a \<Rightarrow> 'a \<Rightarrow> real) \<Rightarrow> 'a \<Rightarrow> 'a list \<Rightarrow> 'a list" where
  "insert_cmp cmp x [] = [x]"
| "insert_cmp cmp x (y # ys) =
     (if cmp x y \<le> 0 then x # y # ys else y # insert_cmp cmp x ys)"

definition sort_cmp :: "('a \<Rightarrow> 'a \<Rightarrow> real) \<Rightarrow> 'a list \<Rightarrow> 'a list" where
  "sort_cmp cmp xs = foldr (insert_cmp cmp) xs []"

section \<open>Featured listing\<close>

text \<open>The comparator of \<open>getFeaturedPreschools\<close>.\<close>

definition featured_cmp :: "preschool \<Rightarrow> preschool \<Rightarrow> real" where
  "featured_cmp a b =
     (let aScore = rating a * ln (real (reviewCount a + 1));
          bScore = rating b * ln (real (reviewCount b + 1))
      in bScore - aScore)"

definition getFeaturedPreschools :: "preschool list \<Rightarrow> int \<Rightarrow> preschool list" where
  "getFeaturedPreschools warehouseData limit =
     (let preschools = getMockPreschools warehouseData;
          featured = sort_cmp featured_cmp preschools
      in slice featured 0 limit)"


section \<open>Distance and the nearby listing\<close>

definition toRadians :: "real \<Rightarrow> real" where
  "toRadians degrees = degrees * pi / 180"

text \<open>\<open>Math.atan2(y, x)\<close>, the angle of the point \<open>(x, y)\<close>.\<close>

definition atan2 :: "real \<Rightarrow> real \<Rightarrow> real" where
  "atan2 y x =
     (if x > 0 then arctan (y / x)
      else if x < 0 then (if y \<ge> 0 then arctan (y / x) + pi else arctan (y / x) - pi)
      else if y > 0 then pi / 2
      else if y < 0 then - pi / 2
      else 0)"

definition calculateDistance :: "real \<Rightarrow> real \<Rightarrow> real \<Rightarrow> real \<Rightarrow> real" where
  "calculateDistance lat1 lon1 lat2 lon2 =
     (let R = 3958.8;
          dLat = toRadians (lat2 - lat1);
          dLon = toRadians (lon2 - lon1);
          a = sin (dLat / 2) * sin (dLat / 2) +
              cos (toRadians lat1) * cos (toRadians lat2) *
              sin (dLon / 2) * sin (dLon / 2);
          c = 2 * atan2 (sqrt a) (sqrt (1 - a))
      in R * c)"


text \<open>
  \<open>parseFloat(x.toFixed(1))\<close>: the nearest multiple of one tenth, a tie going away from
  zero.
\<close>

definition toFixed1 :: "real \<Rightarrow> real" where
  "toFixed1 x =
     (if x < 0 then - (real_of_int \<lfloor>- x * 10 + 1 / 2\<rfloor> / 10)
      else real_of_int \<lfloor>x * 10 + 1 / 2\<rfloor> / 10)"

text \<open>
  \<open>p.latitude && p.longitude\<close>: a coordinate that is absent or zero is falsy.
\<close>

definition has_nonzero_coordinates :: "preschool \<Rightarrow> bool" where
  "has_nonzero_coordinates p =
     (case (latitude p, longitude p) of
        (Some plat, Some plon) \<Rightarrow> plat \<noteq> 0 \<and> plon \<noteq> 0
      | _ \<Rightarrow> False)"

text \<open>
  The callback of \<open>.map\<close>: a copy of the record with \<open>distance\<close> set to the rounded
  distance from the origin. Without both coordinates the arithmetic yields \<open>NaN\<close>,
  which compares and subtracts as \<open>undefined\<close> does, and is \<open>None\<close> here.
\<close>

definition rounded_distance :: "real \<Rightarrow> real \<Rightarrow> preschool \<Rightarrow> real option" where
  "rounded_distance lat lon p =
     (case (latitude p, longitude p) of
        (Some plat, Some plon) \<Rightarrow> Some (toFixed1 (calculateDistance lat lon plat plon))
      | _ \<Rightarrow> None)"

definition attach_distance :: "real \<Rightarrow> real \<Rightarrow> preschool \<Rightarrow> preschool" where
  "attach_distance lat lon p = p \<lparr> distance := rounded_distance lat lon p \<rparr>"

text \<open>\<open>p.distance <= maxDistance\<close>; a comparison with \<open>undefined\<close> is false.\<close>

definition distance_within :: "real \<Rightarrow> preschool \<Rightarrow> bool" where
  "distance_within maxDistance p =
     (case distance p of None \<Rightarrow> False | Some d \<Rightarrow> d \<le> maxDistance)"

text \<open>
  \<open>a.distance - b.distance\<close>; with an \<open>undefined\<close> operand the difference is \<open>NaN\<close>,
  which the sort takes as zero.
\<close>

definition distance_cmp :: "preschool \<Rightarrow> preschool \<Rightarrow> real" where
  "distance_cmp a b =
     (case (distance a, distance b) of (Some x, Some y) \<Rightarrow> x - y | _ \<Rightarrow> 0)"

text \<open>
  \<open>getPreschoolsNearLocation\<close> reads the warehouse data directly (\<open>getAllPreschools\<close>),
  not the built-in set.
\<close>

definition getPreschoolsNearLocation :: "preschool list \<Rightarrow> real \<Rightarrow> real \<Rightarrow> real \<Rightarrow> preschool list" where
  "getPreschoolsNearLocation warehouseData lat lon maxDistance =
     (let preschools = warehouseData;
          candidates = filter has_nonzero_coordinates preschools;
          located = map (attach_distance lat lon) candidates;
          near = filter (distance_within maxDistance) located
      in sort_cmp distance_cmp near)"

definition getNearbyPreschools :: "preschool list \<Rightarrow> real \<Rightarrow> real \<Rightarrow> real \<Rightarrow> int \<Rightarrow> preschool list" where
  "getNearbyPreschools warehouseData lat lon radius limit =
     (let preschools = getPreschoolsNearLocation warehouseData lat lon radius
      in slice preschools 0 limit)"


definition within_radius :: "real \<Rightarrow> real \<Rightarrow> real \<Rightarrow> preschool \<Rightarrow> bool" where
  "within_radius lat lon radius p =
     (has_nonzero_coordinates p \<and>
      (case rounded_distance lat lon p of None \<Rightarrow> False | Some d \<Rightarrow> d \<le> radius))"

text \<open>The local \<open>a\<close> of \<open>calculateDistance\<close>, the haversine of the central angle.\<close>

definition haversine_a :: "real \<Rightarrow> real \<Rightarrow> real \<Rightarrow> real \<Rightarrow> real" where
  "haversine_a lat1 lon1 lat2 lon2 =
     sin (toRadians (lat2 - lat1) / 2) * sin (toRadians (lat2 - lat1) / 2) +
     cos (toRadians lat1) * cos (toRadians lat2) *
     sin (toRadians (lon2 - lon1) / 2) * sin (toRadians (lon2 - lon1) / 2)"

section \<open>Recommendations\<close>

text \<open>
  The callback of the location filter of \<open>getRecommendations\<close>. The three tests are
  joined by \<open>||\<close>, so a later one is evaluated only when the earlier ones are false;
  \<open>p.city.toLowerCase()\<close> and \<open>p.zip_code.includes(...)\<close> raise a TypeError on a
  record without the field.
\<close>

definition location_matches :: "string \<Rightarrow> preschool \<Rightarrow> error + bool" where
  "location_matches loc p =
     (if str_includes (toLowerCase (address p)) (toLowerCase loc) then Inr True
      else (case city p of
              None \<Rightarrow> Inl TypeError
            | Some c \<Rightarrow>
                if str_includes (toLowerCase c) (toLowerCase loc) then Inr True
                else (case zip_code p of
                        None \<Rightarrow> Inl TypeError
                      | Some z \<Rightarrow> Inr (str_includes z loc))))"

text \<open>\<open>Array.prototype.filter\<close> with a callback that may throw: the first error ends it.\<close>

fun filter_throwing :: "('a \<Rightarrow> error + bool) \<Rightarrow> 'a list \<Rightarrow> error + 'a list" where
  "filter_throwing f [] = Inr []"
| "filter_throwing f (x # xs) =
     (case f x of
        Inl e \<Rightarrow> Inl e
      | Inr keep \<Rightarrow>
          (case filter_throwing f xs of
             Inl e \<Rightarrow> Inl e
           | Inr ys \<Rightarrow> Inr (if keep then x # ys else ys)))"

definition rating_cmp :: "preschool \<Rightarrow> preschool \<Rightarrow> real" where
  "rating_cmp a b = rating b - rating a"

definition with_reasons :: "preferences \<Rightarrow> preschool \<Rightarrow> preschool" where
  "with_reasons prefs p = p \<lparr> matchReasons := Some (generateMatchReasons p prefs) \<rparr>"

text \<open>
  \<open>getRecommendations\<close> with mock data (the user id is not used on that path). The
  \<open>catch\<close> block logs the error and throws it again.
\<close>

definition getRecommendations :: "preschool list \<Rightarrow> preferences \<Rightarrow> int \<Rightarrow> error + preschool list" where
  "getRecommendations warehouseData prefs limit =
     (let preschools = getMockPreschools warehouseData;
          filtered0 = preschools
      in case (case pref_location prefs of
                 None \<Rightarrow> Inr filtered0
               | Some loc \<Rightarrow>
                   if loc \<noteq> [] then filter_throwing (location_matches loc) filtered0
                   else Inr filtered0) of
           Inl e \<Rightarrow> Inl e
         | Inr filtered1 \<Rightarrow>
             (let filtered2 =
                    (case pref_minRating prefs of
                       None \<Rightarrow> filtered1
                     | Some m \<Rightarrow>
                         if m \<noteq> 0 then filter (\<lambda>p. rating p \<ge> m) filtered1 else filtered1);
                  filtered3 =
                    (case pref_curriculum prefs of
                       None \<Rightarrow> filtered2
                     | Some c \<Rightarrow>
                         if c \<noteq> []
                         then filter (\<lambda>p. curriculum_includes (curriculum p) c) filtered2
                         else filtered2);
                  ranked = sort_cmp rating_cmp filtered3;
                  recommendations = map (with_reasons prefs) (slice ranked 0 limit)
              in Inr recommendations))"

text \<open>Records and preferences for the examples.\<close>

definition located_record :: preschool where
  "located_record = mock_p1 \<lparr> city := Some ''Palo Alto'', zip_code := Some ''94301'' \<rparr>"

definition location_only :: "string \<Rightarrow> preferences" where
  "location_only loc = \<lparr> pref_location = Some loc, pref_minRating = None, pref_curriculum = None \<rparr>"

text \<open>
  Records for the examples: example scenario 3 of the specification, a record 0.0003
  degrees of latitude north of the point (1, 1), and a record at the coordinates of
  example scenario 1.
\<close>

definition scenario3_first :: preschool where
  "scenario3_first = blank_preschool \<lparr> rating := 4.7, reviewCount := 128 \<rparr>"

definition scenario3_second :: preschool where
  "scenario3_second = blank_preschool \<lparr> rating := 4.8, reviewCount := 20 \<rparr>"


definition home_record :: preschool where
  "home_record = blank_preschool \<lparr> latitude := Some 37.4419, longitude := Some (- 122.143) \<rparr>"

section \<open>Arrays and objects in a store\<close>

text \<open>
  To speak of mutation, arrays and objects are placed in a store and named by
  references, as JavaScript values are: an array is a list of references to objects.
  \<open>next_ref\<close> is the allocation counter; a new array or object takes the next
  reference. Of the array methods the flows call, \<open>sort\<close> alone writes to its receiver;
  the spread \<open>[...a]\<close>, \<open>filter\<close>, \<open>slice\<close> and \<open>map\<close> allocate their result, and the
  object spread \<open>{...p, k: v}\<close> allocates a new object.
\<close>

type_synonym ref = nat

record store =
  objects :: "ref \<rightharpoonup> preschool"
  arrays :: "ref \<rightharpoonup> ref list"
  next_ref :: ref

definition new_array :: "ref list \<Rightarrow> store \<Rightarrow> ref \<times> store" where
  "new_array rs s =
     (next_ref s, s \<lparr> arrays := (arrays s)(next_ref s \<mapsto> rs), next_ref := Suc (next_ref s) \<rparr>)"

definition new_object :: "preschool \<Rightarrow> store \<Rightarrow> ref \<times> store" where
  "new_object p s =
     (next_ref s, s \<lparr> objects := (objects s)(next_ref s \<mapsto> p), next_ref := Suc (next_ref s) \<rparr>)"

fun new_objects :: "preschool list \<Rightarrow> store \<Rightarrow> ref list \<times> store" where
  "new_objects [] s = ([], s)"
| "new_objects (p # ps) s =
     (let (r, s1) = new_object p s;
          (rs, s2) = new_objects ps s1
      in (r # rs, s2))"

definition elements :: "store \<Rightarrow> ref \<Rightarrow> ref list" where
  "elements s a = (case arrays s a of None \<Rightarrow> [] | Some rs \<Rightarrow> rs)"

definition object_values :: "store \<Rightarrow> ref list \<Rightarrow> preschool list" where
  "object_values s rs = List.map_filter (objects s) rs"

definition holds :: "store \<Rightarrow> (preschool \<Rightarrow> bool) \<Rightarrow> ref \<Rightarrow> bool" where
  "holds s P r = (case objects s r of None \<Rightarrow> False | Some p \<Rightarrow> P p)"

definition cmp_refs :: "store \<Rightarrow> (preschool \<Rightarrow> preschool \<Rightarrow> real) \<Rightarrow> ref \<Rightarrow> ref \<Rightarrow> real" where
  "cmp_refs s cmp x y =
     (case (objects s x, objects s y) of (Some p, Some q) \<Rightarrow> cmp p q | _ \<Rightarrow> 0)"

definition array_spread :: "ref \<Rightarrow> store \<Rightarrow> ref \<times> store" where
  "array_spread a s = new_array (elements s a) s"

definition array_filter :: "(preschool \<Rightarrow> bool) \<Rightarrow> ref \<Rightarrow> store \<Rightarrow> ref \<times> store" where
  "array_filter P a s = new_array (filter (holds s P) (elements s a)) s"

definition array_filter_throwing ::
  "(preschool \<Rightarrow> error + bool) \<Rightarrow> ref \<Rightarrow> store \<Rightarrow> (error + ref) \<times> store" where
  "array_filter_throwing f a s =
     (case filter_throwing
             (\<lambda>r. case objects s r of None \<Rightarrow> Inl TypeError | Some p \<Rightarrow> f p)
             (elements s a) of
        Inl e \<Rightarrow> (Inl e, s)
      | Inr rs \<Rightarrow> (let (a', s') = new_array rs s in (Inr a', s')))"

definition array_slice :: "ref \<Rightarrow> int \<Rightarrow> int \<Rightarrow> store \<Rightarrow> ref \<times> store" where
  "array_slice a start stop s = new_array (slice (elements s a) start stop) s"

definition array_map :: "(preschool \<Rightarrow> preschool) \<Rightarrow> ref \<Rightarrow> store \<Rightarrow> ref \<times> store" where
  "array_map f a s =
     (let (rs, s1) = new_objects (map f (object_values s (elements s a))) s
      in new_array rs s1)"

text \<open>\<open>a.sort(cmp)\<close> sorts the array \<open>a\<close> in place and returns it.\<close>

definition array_sort :: "(preschool \<Rightarrow> preschool \<Rightarrow> real) \<Rightarrow> ref \<Rightarrow> store \<Rightarrow> ref \<times> store" where
  "array_sort cmp a s =
     (a, s \<lparr> arrays := (arrays s)(a \<mapsto> sort_cmp (cmp_refs s cmp) (elements s a)) \<rparr>)"

text \<open>
  The flows on the store. \<open>warehouse\<close> is the reference of the array of the imported
  data, which \<open>getAllPreschools\<close> returns as it is; \<open>getMockPreschools\<close> returns that
  same array, or a new array of new objects when it is empty.
\<close>

definition getMockPreschools_store :: "ref \<Rightarrow> store \<Rightarrow> ref \<times> store" where
  "getMockPreschools_store warehouse s =
     (if length (elements s warehouse) > 0 then (warehouse, s)
      else (let (rs, s1) = new_objects mock_preschools s in new_array rs s1))"

definition filter_when :: "bool \<Rightarrow> (preschool \<Rightarrow> bool) \<Rightarrow> ref \<Rightarrow> store \<Rightarrow> ref \<times> store" where
  "filter_when active P a s = (if active then array_filter P a s else (a, s))"

definition searchPreschools_store ::
  "ref option \<Rightarrow> string option \<Rightarrow> filters \<Rightarrow> int \<Rightarrow> int \<Rightarrow> store \<Rightarrow> (error + ref) \<times> store" where
  "searchPreschools_store recommendationService query f pg limit s =
     (case recommendationService of
        None \<Rightarrow> (Inl ServiceNotSet, s)
      | Some warehouse \<Rightarrow>
          (let (allPreschools, s0) = getMockPreschools_store warehouse s;
               (filtered0, s1) = array_spread allPreschools s0;
               (filtered1, s2) =
                 (case query of
                    None \<Rightarrow> (filtered0, s1)
                  | Some q \<Rightarrow>
                      filter_when (q \<noteq> []) (matches_query (toLowerCase q)) filtered0 s1);
               (filtered2, s3) =
                 (case filter_minRating f of
                    None \<Rightarrow> (filtered1, s2)
                  | Some m \<Rightarrow> filter_when (m \<noteq> 0) (\<lambda>p. rating p \<ge> m) filtered1 s2);
               (filtered3, s4) =
                 (case filter_ageRange f of
                    None \<Rightarrow> (filtered2, s3)
                  | Some a \<Rightarrow>
                      filter_when (a \<noteq> []) (\<lambda>p. field_includes (ageRange p) a) filtered2 s3);
               (filtered4, s5) =
                 (case filter_curriculum f of
                    None \<Rightarrow> (filtered3, s4)
                  | Some c \<Rightarrow>
                      filter_when (c \<noteq> []) (\<lambda>p. curriculum_includes (curriculum p) c)
                        filtered3 s4);
               (filtered5, s6) =
                 (case filter_priceRange f of
                    None \<Rightarrow> (filtered4, s5)
                  | Some t \<Rightarrow>
                      filter_when (t \<noteq> []) (\<lambda>p. field_includes (tuition p) t) filtered4 s5);
               (paginatedResults, s7) =
                 array_slice filtered5 ((pg - 1) * limit) (pg * limit) s6
           in (Inr paginatedResults, s7)))"

text \<open>The part of \<open>getRecommendations\<close> after the location filter.\<close>

definition recommend_filtered ::
  "preferences \<Rightarrow> int \<Rightarrow> ref \<Rightarrow> store \<Rightarrow> (error + ref) \<times> store" where
  "recommend_filtered prefs limit filtered1 s2 =
     (let (filtered2, s3) =
            (case pref_minRating prefs of
               None \<Rightarrow> (filtered1, s2)
             | Some m \<Rightarrow> filter_when (m \<noteq> 0) (\<lambda>p. rating p \<ge> m) filtered1 s2);
          (filtered3, s4) =
            (case pref_curriculum prefs of
               None \<Rightarrow> (filtered2, s3)
             | Some c \<Rightarrow>
                 filter_when (c \<noteq> []) (\<lambda>p. curriculum_includes (curriculum p) c)
                   filtered2 s3);
          (ranked, s5) = array_sort rating_cmp filtered3 s4;
          (top, s6) = array_slice ranked 0 limit s5;
          (recommendations, s7) = array_map (with_reasons prefs) top s6
      in (Inr recommendations, s7))"

definition getRecommendations_store ::
  "ref \<Rightarrow> preferences \<Rightarrow> int \<Rightarrow> store \<Rightarrow> (error + ref) \<times> store" where
  "getRecommendations_store warehouse prefs limit s =
     (let (preschools, s0) = getMockPreschools_store warehouse s;
          (filtered0, s1) = array_spread preschools s0;
          (located, s2) =
            (case pref_location prefs of
               None \<Rightarrow> (Inr filtered0, s1)
             | Some loc \<Rightarrow>
                 if loc \<noteq> [] then array_filter_throwing (location_matches loc) filtered0 s1
                 else (Inr filtered0, s1))
      in (case located of
            Inl e \<Rightarrow> (Inl e, s2)
          | Inr filtered1 \<Rightarrow> recommend_filtered prefs limit filtered1 s2))"

definition getFeaturedPreschools_store :: "ref \<Rightarrow> int \<Rightarrow> store \<Rightarrow> (error + ref) \<times> store" where
  "getFeaturedPreschools_store warehouse limit s =
     (let (preschools, s0) = getMockPreschools_store warehouse s;
          (copy, s1) = array_spread preschools s0;
          (featured, s2) = array_sort featured_cmp copy s1;
          (top, s3) = array_slice featured 0 limit s2
      in (Inr top, s3))"

definition getPreschoolsNearLocation_store ::
  "ref \<Rightarrow> real \<Rightarrow> real \<Rightarrow> real \<Rightarrow> store \<Rightarrow> ref \<times> store" where
  "getPreschoolsNearLocation_store warehouse lat lon maxDistance s =
     (let (candidates, s1) = array_filter has_nonzero_coordinates warehouse s;
          (located, s2) = array_map (attach_distance lat lon) candidates s1;
          (near, s3) = array_filter (distance_within maxDistance) located s2
      in array_sort distance_cmp near s3)"

definition getNearbyPreschools_store ::
  "ref \<Rightarrow> real \<Rightarrow> real \<Rightarrow> real \<Rightarrow> int \<Rightarrow> store \<Rightarrow> (error + ref) \<times> store" where
  "getNearbyPreschools_store warehouse lat lon radius limit s =
     (let (preschools, s1) = getPreschoolsNearLocation_store warehouse lat lon radius s;
          (top, s2) = array_slice preschools 0 limit s1
      in (Inr top, s2))"

datatype request =
    Search "string option" filters int int
  | Recommend preferences int
  | Featured int
  | Nearby real real real int

fun run_flow :: "request \<Rightarrow> ref \<Rightarrow> store \<Rightarrow> (error + ref) \<times> store" where
  "run_flow (Search query f pg limit) warehouse s =
     searchPreschools_store (Some warehouse) query f pg limit s"
| "run_flow (Recommend prefs limit) warehouse s = getRecommendations_store warehouse prefs limit s"
| "run_flow (Featured limit) warehouse s = getFeaturedPreschools_store warehouse limit s"
| "run_flow (Nearby lat lon radius limit) warehouse s =
     getNearbyPreschools_store warehouse lat lon radius limit s"

text \<open>The flows whose results carry a request-scoped attribute.\<close>

fun attaches_attribute :: "request \<Rightarrow> bool" where
  "attaches_attribute (Recommend prefs limit) = True"
| "attaches_attribute (Nearby lat lon radius limit) = True"
| "attaches_attribute _ = False"

text \<open>
  \<open>unchanged_since s0 s\<close>: every reference allocated in \<open>s0\<close> names in \<open>s\<close> the array
  or object it named in \<open>s0\<close>.
\<close>

definition unchanged_since :: "store \<Rightarrow> store \<Rightarrow> bool" where
  "unchanged_since s0 s =
     (next_ref s0 \<le> next_ref s \<and>
      (\<forall>r<next_ref s0. objects s r = objects s0 r \<and> arrays s r = arrays s0 r))"


text \<open>
  \<open>fresh_result s0 (a, s)\<close>: the store \<open>s\<close> has left the references of \<open>s0\<close> as
  they were and the array \<open>a\<close> was allocated after \<open>s0\<close>; \<open>fresh_elements\<close>: so were
  the objects that the array holds.
\<close>

definition fresh_result :: "store \<Rightarrow> ref \<times> store \<Rightarrow> bool" where
  "fresh_result s0 m = (unchanged_since s0 (snd m) \<and> next_ref s0 \<le> fst m)"

definition fresh_elements :: "store \<Rightarrow> ref \<times> store \<Rightarrow> bool" where
  "fresh_elements s0 m =
     (fresh_result s0 m \<and> (\<forall>r\<in>set (elements (snd m) (fst m)). next_ref s0 \<le> r))"

text \<open>
  The same for the outcome of a flow, which is an error or an array: the store has left
  the references of \<open>s0\<close> as they were and, in \<open>fresh_objects\<close>, the objects of
  the returned array were allocated after \<open>s0\<close>.
\<close>

definition fresh_outcome :: "store \<Rightarrow> (error + ref) \<times> store \<Rightarrow> bool" where
  "fresh_outcome s0 m =
     (unchanged_since s0 (snd m) \<and>
      (case fst m of Inl e \<Rightarrow> True | Inr a \<Rightarrow> next_ref s0 \<le> a))"

definition fresh_objects :: "store \<Rightarrow> (error + ref) \<times> store \<Rightarrow> bool" where
  "fresh_objects s0 m =
     (unchanged_since s0 (snd m) \<and>
      (case fst m of
         Inl e \<Rightarrow> True
       | Inr a \<Rightarrow> \<forall>r\<in>set (elements (snd m) a). next_ref s0 \<le> r))"

text \<open>
  \<open>holds_values (a, s) vs\<close>: in the store \<open>s\<close> the array \<open>a\<close> is allocated, its
  elements are allocated objects, and \<open>vs\<close> are those objects in order.
\<close>

definition holds_values :: "ref \<times> store \<Rightarrow> preschool list \<Rightarrow> bool" where
  "holds_values m vs =
     (fst m < next_ref (snd m) \<and>
      (\<forall>r\<in>set (elements (snd m) (fst m)). r < next_ref (snd m)) \<and>
      map (objects (snd m)) (elements (snd m) (fst m)) = map Some vs)"

text \<open>
  The flows on values, for comparison with the flows on the store: a flow on the store
  \<open>agrees\<close> with its flow on values when both raise the same error or the array
  returned holds the values returned.
\<close>

fun run_pure :: "request \<Rightarrow> preschool list \<Rightarrow> error + preschool list" where
  "run_pure (Search query f pg limit) vs =
     (case searchPreschools (Some vs) query f pg limit of
        Inl e \<Rightarrow> Inl e
      | Inr r \<Rightarrow> Inr (results r))"
| "run_pure (Recommend prefs limit) vs = getRecommendations vs prefs limit"
| "run_pure (Featured limit) vs = Inr (getFeaturedPreschools vs limit)"
| "run_pure (Nearby lat lon radius limit) vs = Inr (getNearbyPreschools vs lat lon radius limit)"

definition returns_values :: "(error + ref) \<times> store \<Rightarrow> preschool list \<Rightarrow> bool" where
  "returns_values m vs =
     (case fst m of Inl e \<Rightarrow> False | Inr a \<Rightarrow> holds_values (a, snd m) vs)"

definition agrees :: "(error + ref) \<times> store \<Rightarrow> error + preschool list \<Rightarrow> bool" where
  "agrees m r = (case r of Inl e \<Rightarrow> fst m = Inl e | Inr vs \<Rightarrow> returns_values m vs)"

text \<open>The attribute that the flow of a request sets on its results.\<close>

fun has_attribute :: "request \<Rightarrow> preschool \<Rightarrow> bool" where
  "has_attribute (Recommend prefs limit) p = (matchReasons p \<noteq> None)"
| "has_attribute (Nearby lat lon radius limit) p = (distance p \<noteq> None)"
| "has_attribute _ p = True"

text \<open>
  Stores for the examples: one record, in the warehouse array 1; and the two records of
  example scenario 3, in the warehouse array 2.
\<close>

definition ranking_store :: store where
  "ranking_store =
     \<lparr> objects = Map.empty(0 \<mapsto> scenario3_second, 1 \<mapsto> scenario3_first),
       arrays = Map.empty(2 \<mapsto> [0, 1]), next_ref = 3 \<rparr>"

definition example_store :: store where
  "example_store =
     \<lparr> objects = Map.empty(0 \<mapsto> home_record), arrays = Map.empty(1 \<mapsto> [0]), next_ref = 2 \<rparr>"

section \<open>Properties of the match reasons\<close>

lemma rule_feature_cases:
  "rule_feature p = (case features p of Some (f # rest) \<Rightarrow> [''Offers '' @ f] | _ \<Rightarrow> [])"
  by (simp add: rule_feature_def split: option.splits list.splits)

lemma rule_curriculum_cases:
  "rule_curriculum p prefs =
     (case pref_curriculum prefs of
        None \<Rightarrow> []
      | Some wanted \<Rightarrow>
          if wanted \<noteq> [] \<and> curriculum_includes (curriculum p) wanted
          then [''Offers '' @ (case curriculum p of Some c \<Rightarrow> c | None \<Rightarrow> []) @ '' curriculum'']
          else [])"
  by (simp add: rule_curriculum_def split: option.splits)

text \<open>
  C4. For every record and preference set, \<open>generateMatchReasons\<close> returns the strings of
  the six rules in their fixed priority order: the rating reason, the curriculum reason,
  the popularity reason, the CSPP reason, the first-feature reason, and the fallback
  \<open>Matches your preferences\<close> alone when none of the five fired; the result is never
  empty.
\<close>

theorem generateMatchReasons_spec:
  "generateMatchReasons p prefs = reasons_spec p prefs \<and> generateMatchReasons p prefs \<noteq> []"
proof -
  have r1: "(if rating p \<ge> 4.5 then [] @ [''Top-rated preschool'']
             else if rating p \<ge> 4.0 then [] @ [''Highly rated by parents'']
             else []) = rule_rating p"
    by (simp add: rule_rating_def)
  have r2: "\<And>xs. (case pref_curriculum prefs of
               None \<Rightarrow> xs
             | Some wanted \<Rightarrow>
                 if wanted \<noteq> [] \<and> curriculum_includes (curriculum p) wanted
                 then xs @ [''Offers '' @ (case curriculum p of Some c \<Rightarrow> c | None \<Rightarrow> []) @ '' curriculum'']
                 else xs) = xs @ rule_curriculum p prefs"
    by (simp add: rule_curriculum_cases split: option.splits)
  have r3: "\<And>xs. (if reviewCount p > 50 then xs @ [''Popular with many positive reviews'']
             else xs) = xs @ rule_popular p"
    by (simp add: rule_popular_def)
  have r4: "\<And>xs. (if program_type p = Some ''CSPP'' \<or> startsWith (id_field p) ''CSPP_''
             then xs @ [''California State Preschool Program'']
             else xs) = xs @ rule_cspp p"
    by (simp add: rule_cspp_def startsWith_def)
  have r5: "\<And>xs. (case features p of
               Some (feature # rest) \<Rightarrow> xs @ [''Offers '' @ feature]
             | _ \<Rightarrow> xs) = xs @ rule_feature p"
    by (simp add: rule_feature_cases split: option.splits list.splits)
  have eq: "generateMatchReasons p prefs = reasons_spec p prefs"
    unfolding generateMatchReasons_def reasons_spec_def Let_def r1 r2 r3 r4 r5
    by simp
  have "reasons_spec p prefs \<noteq> []"
    by (simp add: reasons_spec_def Let_def)
  with eq show ?thesis by simp
qed

theorem generateMatchReasons_spec_witness:
  "generateMatchReasons scenario5_record no_preferences =
     [''Top-rated preschool'', ''Popular with many positive reviews'', ''Offers Organic meals'']
   \<and> generateMatchReasons blank_preschool no_preferences = [''Matches your preferences'']"
  using generateMatchReasons_spec [of scenario5_record no_preferences]
    generateMatchReasons_spec [of blank_preschool no_preferences]
  by (simp add: reasons_spec_def rule_rating_def rule_curriculum_def rule_popular_def
      rule_cspp_def rule_feature_def scenario5_record_def blank_preschool_def
      no_preferences_def)


section \<open>Properties of the search filter\<close>

lemma rating_mock:
  "rating mock_p1 = 4.7" "rating mock_p2 = 4.5" "rating mock_p3 = 4.8"
  "rating mock_p4 = 4.3" "rating mock_p5 = 4.6" "rating mock_p6 = 4.2"
  by (simp_all add: mock_p1_def mock_p2_def mock_p3_def mock_p4_def mock_p5_def mock_p6_def
      mock_record_def)

text \<open>
  C1 (as amended). For every record set, query and filter specification, the search
  filter returns exactly the records that satisfy every active criterion, in the order
  of the record set: text query, minimum rating, curriculum and price range as the
  specification says, and the age range by case-sensitive substring containment in the
  record's age-range text. A criterion that is absent, empty or zero is skipped.
\<close>

theorem search_filtered_conjunctive:
  "search_filtered ps query f = filter (search_criteria query f) ps"
proof -
  have s1: "\<And>xs. (case query of None \<Rightarrow> xs
             | Some q \<Rightarrow> if q \<noteq> [] then filter (matches_query (toLowerCase q)) xs else xs)
            = filter (crit_query query) xs"
    by (auto simp: crit_query_def fun_eq_iff split: option.splits intro!: filter_cong)
  have s2: "\<And>xs. (case filter_minRating f of None \<Rightarrow> xs
             | Some m \<Rightarrow> if m \<noteq> 0 then filter (\<lambda>p. rating p \<ge> m) xs else xs)
            = filter (crit_minRating f) xs"
    by (auto simp: crit_minRating_def split: option.splits intro!: filter_cong)
  have s3: "\<And>xs. (case filter_ageRange f of None \<Rightarrow> xs
             | Some a \<Rightarrow> if a \<noteq> [] then filter (\<lambda>p. field_includes (ageRange p) a) xs else xs)
            = filter (crit_ageRange f) xs"
    by (auto simp: crit_ageRange_def split: option.splits intro!: filter_cong)
  have s4: "\<And>xs. (case filter_curriculum f of None \<Rightarrow> xs
             | Some c \<Rightarrow> if c \<noteq> [] then filter (\<lambda>p. curriculum_includes (curriculum p) c) xs else xs)
            = filter (crit_curriculum f) xs"
    by (auto simp: crit_curriculum_def split: option.splits intro!: filter_cong)
  have s5: "\<And>xs. (case filter_priceRange f of None \<Rightarrow> xs
             | Some t \<Rightarrow> if t \<noteq> [] then filter (\<lambda>p. field_includes (tuition p) t) xs else xs)
            = filter (crit_priceRange f) xs"
    by (auto simp: crit_priceRange_def split: option.splits intro!: filter_cong)
  show ?thesis
    unfolding search_filtered_def Let_def s1 s2 s3 s4 s5
    by (auto simp: search_criteria_def intro!: filter_cong)
qed

text \<open>
  Example scenario 2 of the specification: the ratings 4.7, 4.5, 4.8, 4.3, 4.6 filtered
  by a minimum rating of 4.6.
\<close>

theorem search_filtered_conjunctive_witness:
  "search_filtered [mock_p1, mock_p2, mock_p3, mock_p4, mock_p5] None
     (no_filters \<lparr> filter_minRating := Some 4.6 \<rparr>) = [mock_p1, mock_p3, mock_p5]"
  using search_filtered_conjunctive [of "[mock_p1, mock_p2, mock_p3, mock_p4, mock_p5]" None
      "no_filters \<lparr> filter_minRating := Some 4.6 \<rparr>"]
  by (simp add: search_criteria_def crit_query_def crit_minRating_def crit_ageRange_def
      crit_curriculum_def crit_priceRange_def no_filters_def rating_mock)

text \<open>
  C1 as stated fails: with the age-range filter \<open>years\<close>, a record whose age-range text
  is \<open>2-5 Years\<close> contains the filter value case-insensitively, and the code drops it.
\<close>

theorem search_ageRange_counterexample:
  "search_filtered [blank_preschool \<lparr> ageRange := Some ''2-5 Years'' \<rparr>] None
     (no_filters \<lparr> filter_ageRange := Some ''years'' \<rparr>) = []
   \<and> filter (search_criteria_spec None (no_filters \<lparr> filter_ageRange := Some ''years'' \<rparr>))
       [blank_preschool \<lparr> ageRange := Some ''2-5 Years'' \<rparr>]
     = [blank_preschool \<lparr> ageRange := Some ''2-5 Years'' \<rparr>]"
  by (simp add: search_filtered_def search_criteria_spec_def crit_query_def crit_minRating_def
      crit_ageRange_spec_def crit_curriculum_def crit_priceRange_def no_filters_def
      toLowerCase_def lower_char_def)

section \<open>Properties of the pagination\<close>

lemma slice_nonneg:
  assumes "0 \<le> s" "s \<le> e"
  shows "slice xs s e = take (nat e - nat s) (drop (nat s) xs)"
proof (cases "s \<le> int (length xs)")
  case True
  then have k: "min s (int (length xs)) = s" by simp
  show ?thesis
  proof (cases "e \<le> int (length xs)")
    case True
    with assms k show ?thesis
      by (simp add: slice_def Let_def nat_diff_distrib)
  next
    case False
    with assms k \<open>s \<le> int (length xs)\<close> show ?thesis
      by (simp add: slice_def Let_def min_def nat_diff_distrib)
  qed
next
  case False
  with assms show ?thesis
    by (simp add: slice_def Let_def min_def)
qed

lemma chunks_concat:
  "concat (map (\<lambda>k. take L (drop (k * L) xs)) [0..<m]) = take (m * L) xs"
proof (induction m)
  case 0
  show ?case by simp
next
  case (Suc m)
  have "take (m * L) xs @ take L (drop (m * L) xs) = take (m * L + L) xs"
    by (simp add: take_add)
  with Suc show ?case by (simp add: add.commute)
qed

lemma paginate_results:
  assumes "0 < limit" "1 \<le> k"
  shows "results (paginate xs (int k) limit) = take (nat limit) (drop ((k - 1) * nat limit) xs)"
proof -
  have a: "0 \<le> (int k - 1) * limit" using assms by simp
  have b: "(int k - 1) * limit \<le> int k * limit" using assms by (simp add: mult_right_mono)
  have c: "nat ((int k - 1) * limit) = (k - 1) * nat limit"
    using assms by (simp add: nat_mult_distrib)
  have e: "nat (int k * limit) = k * nat limit"
    using assms by (simp add: nat_mult_distrib)
  have "k * nat limit = (k - 1) * nat limit + nat limit"
    using assms by (cases k) simp_all
  then have d: "nat (int k * limit) - nat ((int k - 1) * limit) = nat limit"
    unfolding c e by simp
  show ?thesis
    using slice_nonneg [OF a b] c d by (simp add: paginate_def Let_def)
qed

lemma ceil_mult_ge:
  assumes "0 < limit"
  shows "int n \<le> \<lceil>real n / real_of_int limit\<rceil> * limit"
proof -
  have "real n / real_of_int limit \<le> of_int \<lceil>real n / real_of_int limit\<rceil>"
    by (rule le_of_int_ceiling)
  moreover have "0 < real_of_int limit" using assms by simp
  ultimately have "real n \<le> of_int \<lceil>real n / real_of_int limit\<rceil> * real_of_int limit"
    by (simp only: pos_divide_le_eq)
  then have "real_of_int (int n) \<le> real_of_int (\<lceil>real n / real_of_int limit\<rceil> * limit)"
    by simp
  then show ?thesis by (simp only: of_int_le_iff)
qed

lemma ceil_nonneg:
  assumes "0 < limit"
  shows "0 \<le> \<lceil>real n / real_of_int limit\<rceil>"
proof -
  have "0 \<le> real n / real_of_int limit" using assms by simp
  then have "\<lceil>0::real\<rceil> \<le> \<lceil>real n / real_of_int limit\<rceil>" by (rule ceiling_mono)
  then show ?thesis by simp
qed


text \<open>
  C2. For every sequence and every limit > 0: \<open>totalCount\<close> is the length of the
  sequence, \<open>totalPages\<close> is the ceiling of \<open>totalCount / limit\<close>, the items of the
  pages 1 to \<open>totalPages\<close> concatenated are the sequence itself, and a page beyond
  \<open>totalPages\<close> has no items (with the same \<open>totalCount\<close> and \<open>totalPages\<close>, which do
  not depend on the page).
\<close>

theorem paginate_pages:
  assumes "0 < limit"
  shows "totalCount (paginate xs pg limit) = length xs
       \<and> totalPages (paginate xs pg limit) = Finite \<lceil>real (length xs) / real_of_int limit\<rceil>
       \<and> concat (map (\<lambda>k. results (paginate xs (int k) limit))
                   [1..<Suc (nat \<lceil>real (length xs) / real_of_int limit\<rceil>)]) = xs
       \<and> (\<lceil>real (length xs) / real_of_int limit\<rceil> < pg \<longrightarrow>
            results (paginate xs pg limit) = [])"
proof -
  define tp where "tp = \<lceil>real (length xs) / real_of_int limit\<rceil>"
  have tp0: "0 \<le> tp" unfolding tp_def using assms by (rule ceil_nonneg)
  have cover: "int (length xs) \<le> tp * limit"
    unfolding tp_def using assms by (rule ceil_mult_ge)
  then have cover_nat: "length xs \<le> nat tp * nat limit"
    using tp0 assms by (metis nat_int nat_mono nat_mult_distrib)
  have c1: "totalCount (paginate xs pg limit) = length xs"
    by (simp add: paginate_def Let_def)
  have c2: "totalPages (paginate xs pg limit) = Finite tp"
    using assms by (simp add: paginate_def Let_def ceil_quotient_def tp_def)
  have "map (\<lambda>k. results (paginate xs (int k) limit)) [1..<Suc (nat tp)]
        = map (\<lambda>k. take (nat limit) (drop ((k - 1) * nat limit) xs)) [1..<Suc (nat tp)]"
    using assms by (intro map_cong refl paginate_results) auto
  also have "\<dots> = map (\<lambda>k. take (nat limit) (drop (k * nat limit) xs)) [0..<nat tp]"
    by (simp add: map_Suc_upt[symmetric] del: upt_Suc)
  finally have "concat (map (\<lambda>k. results (paginate xs (int k) limit)) [1..<Suc (nat tp)])
        = take (nat tp * nat limit) xs"
    by (simp only: chunks_concat)
  with cover_nat have c3: "concat (map (\<lambda>k. results (paginate xs (int k) limit)) [1..<Suc (nat tp)]) = xs"
    by simp
  have c4: "results (paginate xs pg limit) = []" if "tp < pg"
  proof -
    have "tp * limit \<le> (pg - 1) * limit"
      using that assms by (simp add: mult_right_mono)
    with cover have s: "int (length xs) \<le> (pg - 1) * limit" by simp
    then have "0 \<le> (pg - 1) * limit" by simp
    with s show ?thesis
      by (simp add: paginate_def Let_def slice_def min_def)
  qed
  from c1 c2 c3 c4 show ?thesis unfolding tp_def by blast
qed


text \<open>Example scenario 4 of the specification: five records, pages of two.\<close>

theorem paginate_pages_witness:
  "(0::int) < 2
   \<and> totalCount (paginate [mock_p1, mock_p2, mock_p3, mock_p4, mock_p5] 2 2) = 5
   \<and> totalPages (paginate [mock_p1, mock_p2, mock_p3, mock_p4, mock_p5] 2 2) = Finite 3
   \<and> results (paginate [mock_p1, mock_p2, mock_p3, mock_p4, mock_p5] 1 2)
       @ results (paginate [mock_p1, mock_p2, mock_p3, mock_p4, mock_p5] 2 2)
       @ results (paginate [mock_p1, mock_p2, mock_p3, mock_p4, mock_p5] 3 2)
       = [mock_p1, mock_p2, mock_p3, mock_p4, mock_p5]
   \<and> results (paginate [mock_p1, mock_p2, mock_p3, mock_p4, mock_p5] 4 2) = []"
proof -
  have h: "(0::int) < 2" by simp
  have c: "\<lceil>real (length [mock_p1, mock_p2, mock_p3, mock_p4, mock_p5]) / real_of_int 2\<rceil> = 3"
    by (simp add: ceiling_eq_iff)
  have u: "[1..<Suc (nat 3)] = [1, 2, 3]"
    by (simp add: upt_rec)
  show ?thesis
    using h paginate_pages [OF h, of "[mock_p1, mock_p2, mock_p3, mock_p4, mock_p5]" 4]
      paginate_pages [OF h, of "[mock_p1, mock_p2, mock_p3, mock_p4, mock_p5]" 2]
    unfolding c u by simp
qed

text \<open>
  C8 (as amended). For every record set, query, filters and page, a limit \<open>\<le> 0\<close> does
  not make the search fail: it returns the page record, whose \<open>totalCount\<close> is the
  length of the filtered sequence; with limit 0 the items are empty and \<open>totalPages\<close> is
  \<open>Infinity\<close>, or \<open>NaN\<close> when nothing matched.
\<close>

theorem paginate_nonpositive_limit:
  assumes "limit \<le> 0"
  shows "searchPreschools (Some w) query f pg limit
           = Inr (paginate (search_filtered (getMockPreschools w) query f) pg limit)
       \<and> totalCount (paginate xs pg limit) = length xs
       \<and> (limit = 0 \<longrightarrow> results (paginate xs pg limit) = []
              \<and> totalPages (paginate xs pg limit) = (if xs = [] then NaN else Infinity))"
  by (simp add: searchPreschools_def paginate_def Let_def slice_def ceil_quotient_def)

theorem paginate_nonpositive_limit_witness:
  "(0::int) \<le> 0
   \<and> searchPreschools (Some []) None no_filters 1 0
       = Inr (paginate (search_filtered (getMockPreschools []) None no_filters) 1 0)
   \<and> results (paginate [mock_p1, mock_p2] 1 0) = []
   \<and> totalPages (paginate [mock_p1, mock_p2] 1 0) = Infinity"
proof -
  have h: "(0::int) \<le> 0" by simp
  show ?thesis
    using paginate_nonpositive_limit [OF h, of "[]" None no_filters 1 "[mock_p1, mock_p2]"]
    by simp
qed

text \<open>
  C8 as stated fails: a search with limit 0 over the built-in record set returns a page
  record and no error.
\<close>

theorem paginate_limit_zero_counterexample:
  "searchPreschools (Some []) None no_filters 1 0
     = Inr \<lparr> results = [], totalCount = 6, page = 1, totalPages = Infinity \<rparr>"
  by (simp add: searchPreschools_def paginate_def Let_def slice_def ceil_quotient_def
      search_filtered_def no_filters_def getMockPreschools_def mock_preschools_def)

section \<open>Properties of the comparator sort and the featured listing\<close>








lemma ln_score: "4.8 * ln (21::real) < 4.7 * ln 129"
proof -
  have a: "ln ((21::real) ^ 3) = 3 * ln 21" by (subst ln_realpow) simp_all
  have b: "ln ((129::real) ^ 2) = 2 * ln 129" by (subst ln_realpow) simp_all
  have "ln ((21::real) ^ 3) < ln (129 ^ 2)"
    by (subst ln_less_cancel_iff) simp_all
  then have "3 * ln (21::real) < 2 * ln 129"
    unfolding a b .
  moreover have "0 < ln (129::real)" by simp
  ultimately show ?thesis by linarith
qed



section \<open>Properties of the distance\<close>






lemma calculateDistance_a:
  "calculateDistance lat1 lon1 lat2 lon2 =
     3958.8 * (2 * atan2 (sqrt (haversine_a lat1 lon1 lat2 lon2))
                         (sqrt (1 - haversine_a lat1 lon1 lat2 lon2)))"
  by (simp add: calculateDistance_def haversine_a_def Let_def)




lemma calculateDistance_same: "calculateDistance lat lon lat lon = 0"
proof -
  have "haversine_a lat lon lat lon = 0"
    by (simp add: haversine_a_def toRadians_def)
  then show ?thesis
    unfolding calculateDistance_a by (simp add: atan2_def)
qed









section \<open>Properties of the nearby listing\<close>

lemma distance_within_attach:
  "distance_within radius (attach_distance lat lon p)
     = (case rounded_distance lat lon p of None \<Rightarrow> False | Some d \<Rightarrow> d \<le> radius)"
  by (simp add: distance_within_def attach_distance_def)

lemma near_candidates:
  "filter (distance_within radius)
     (map (attach_distance lat lon) (filter has_nonzero_coordinates ps))
     = map (attach_distance lat lon) (filter (within_radius lat lon radius) ps)"
proof -
  have "(distance_within radius \<circ> attach_distance lat lon)
        = (\<lambda>p. case rounded_distance lat lon p of None \<Rightarrow> False | Some d \<Rightarrow> d \<le> radius)"
    by (simp add: fun_eq_iff distance_within_attach)
  then show ?thesis
    by (simp add: filter_map within_radius_def[abs_def])
qed

lemma getPreschoolsNearLocation_sorted_candidates:
  "getPreschoolsNearLocation w lat lon radius
     = sort_cmp distance_cmp (map (attach_distance lat lon) (filter (within_radius lat lon radius) w))"
  by (simp add: getPreschoolsNearLocation_def Let_def near_candidates)

lemma candidate_distance:
  assumes "q \<in> set (map (attach_distance lat lon) (filter (within_radius lat lon radius) w))"
  shows "\<exists>d. distance q = Some d"
  using assms
  by (auto simp: attach_distance_def within_radius_def split: option.splits)









section \<open>Properties of the recommendations\<close>

lemma filter_throwing_total:
  assumes "\<forall>x\<in>set xs. \<exists>b. f x = Inr b"
  shows "\<exists>ys. filter_throwing f xs = Inr ys"
  using assms by (induction xs) auto

lemma filter_throwing_all_or_error:
  assumes "\<forall>x\<in>set xs. f x = (if P x then Inr True else Inl e)"
  shows "filter_throwing f xs = (if \<forall>x\<in>set xs. P x then Inr xs else Inl e)"
  using assms by (induction xs) auto

lemma location_matches_total:
  assumes "city p \<noteq> None" "zip_code p \<noteq> None"
  shows "\<exists>b. location_matches loc p = Inr b"
  using assms by (auto simp: location_matches_def)

lemma location_matches_mock:
  assumes "city p = None"
  shows "location_matches loc p =
           (if str_includes (toLowerCase (address p)) (toLowerCase loc) then Inr True
            else Inl TypeError)"
  using assms by (simp add: location_matches_def)

lemma mock_no_city: "\<forall>p\<in>set mock_preschools. city p = None \<and> zip_code p = None"
  by (simp add: mock_preschools_def mock_p1_def mock_p2_def mock_p3_def mock_p4_def
      mock_p5_def mock_p6_def mock_record_def)

lemma getRecommendations_after_location:
  "getRecommendations w prefs limit = Inl e \<longleftrightarrow>
     (case pref_location prefs of
        None \<Rightarrow> False
      | Some loc \<Rightarrow> loc \<noteq> [] \<and>
          filter_throwing (location_matches loc) (getMockPreschools w) = Inl e)"
  by (simp add: getRecommendations_def Let_def split: option.splits sum.splits)

lemma str_includes_length: "str_includes s t \<Longrightarrow> length t \<le> length s"
  by (induction s) (auto dest: prefix_length_le)

lemma filter_throwing_error:
  assumes "x \<in> set xs" "f x = Inl e"
  shows "\<exists>e'. filter_throwing f xs = Inl e'"
  using assms by (induction xs) (auto split: sum.splits)

lemma location_matches_long:
  assumes "city p = None \<or> zip_code p = None"
    and "length (address p) < length loc"
    and "\<forall>c. city p = Some c \<longrightarrow> length c < length loc"
  shows "location_matches loc p = Inl TypeError"
proof -
  have a: "\<not> str_includes (toLowerCase (address p)) (toLowerCase loc)"
    using assms(2) str_includes_length [of "toLowerCase (address p)" "toLowerCase loc"]
    by (auto simp: toLowerCase_def)
  have c: "\<not> str_includes (toLowerCase c) (toLowerCase loc)" if "city p = Some c" for c
    using assms(3) that str_includes_length [of "toLowerCase c" "toLowerCase loc"]
    by (auto simp: toLowerCase_def)
  show ?thesis
    using assms(1) a c by (auto simp: location_matches_def split: option.splits)
qed

lemma long_location:
  obtains loc :: string where "loc \<noteq> []" "length (address p) < length loc"
    "\<forall>c. city p = Some c \<longrightarrow> length c < length loc"
proof -
  define n where "n = Suc (length (address p) + (case city p of None \<Rightarrow> 0 | Some c \<Rightarrow> length c))"
  show thesis
    by (rule that [of "replicate n CHR ''x''"]) (simp_all add: n_def)
qed

lemma pref_location_update: "pref_location (prefs \<lparr> pref_location := Some loc \<rparr>) = Some loc"
  by simp

lemma address_mock:
  "address mock_p1 = ''123 Main St, Palo Alto, CA 94301''"
  "address mock_p2 = ''456 Oak Ave, Menlo Park, CA 94025''"
  "address mock_p3 = ''789 Pine Ln, Palo Alto, CA 94303''"
  "address mock_p4 = ''321 Maple Dr, Menlo Park, CA 94025''"
  "address mock_p5 = ''567 Willow Way, Palo Alto, CA 94306''"
  "address mock_p6 = ''890 Cedar St, Menlo Park, CA 94025''"
  by (simp_all add: mock_p1_def mock_p2_def mock_p3_def mock_p4_def mock_p5_def mock_p6_def
      mock_record_def)

lemma id_mock:
  "id_field mock_p1 = ''p1''" "id_field mock_p2 = ''p2''" "id_field mock_p3 = ''p3''"
  "id_field mock_p4 = ''p4''" "id_field mock_p5 = ''p5''" "id_field mock_p6 = ''p6''"
  by (simp_all add: mock_p1_def mock_p2_def mock_p3_def mock_p4_def mock_p5_def mock_p6_def
      mock_record_def)

text \<open>
  C10 (as amended). With a location preference, the location filter reads a record's
  city and postal code without a presence guard, so the recommend flow returns for
  every location if and only if every record of the data set carries both fields. The
  records of the built-in set carry neither. The fields are read only when the
  record's address does not contain the location, so over the built-in set a
  location-filtered recommendation raises a TypeError exactly when the address of some
  record does not contain the location (case-insensitively), and returns its list
  otherwise.
\<close>

theorem recommendations_location_guard:
  "((\<forall>loc. loc \<noteq> [] \<longrightarrow>
        (\<exists>rs. getRecommendations w (prefs \<lparr> pref_location := Some loc \<rparr>) limit = Inr rs))
     \<longleftrightarrow> (\<forall>p\<in>set (getMockPreschools w). city p \<noteq> None \<and> zip_code p \<noteq> None))
   \<and> (\<forall>p\<in>set mock_preschools. city p = None \<and> zip_code p = None)
   \<and> (loc \<noteq> [] \<longrightarrow>
        (getRecommendations [] (prefs \<lparr> pref_location := Some loc \<rparr>) limit = Inl TypeError
         \<longleftrightarrow> (\<exists>p\<in>set mock_preschools.
                \<not> str_includes (toLowerCase (address p)) (toLowerCase loc))))"
proof -
  have c1a: "\<exists>rs. getRecommendations w (prefs \<lparr> pref_location := Some l \<rparr>) limit = Inr rs"
    if a: "\<forall>p\<in>set (getMockPreschools w). city p \<noteq> None \<and> zip_code p \<noteq> None" for l
  proof -
    have "\<forall>p\<in>set (getMockPreschools w). \<exists>b. location_matches l p = Inr b"
      using a location_matches_total by blast
    then have "\<exists>ys. filter_throwing (location_matches l) (getMockPreschools w) = Inr ys"
      by (rule filter_throwing_total)
    then have "filter_throwing (location_matches l) (getMockPreschools w) \<noteq> Inl e" for e
      by (metis Inl_Inr_False)
    then have "\<And>e. getRecommendations w (prefs \<lparr> pref_location := Some l \<rparr>) limit \<noteq> Inl e"
      unfolding getRecommendations_after_location pref_location_update by simp
    then show ?thesis
      by (cases "getRecommendations w (prefs \<lparr> pref_location := Some l \<rparr>) limit") auto
  qed
  have c1b: "\<exists>l. l \<noteq> [] \<and>
      (\<forall>rs. getRecommendations w (prefs \<lparr> pref_location := Some l \<rparr>) limit \<noteq> Inr rs)"
    if p: "p \<in> set (getMockPreschools w)" "city p = None \<or> zip_code p = None" for p
  proof -
    obtain l :: string where l: "l \<noteq> []" "length (address p) < length l"
      "\<forall>c. city p = Some c \<longrightarrow> length c < length l"
      by (rule long_location [of p])
    from location_matches_long [OF p(2) l(2) l(3)]
    have "location_matches l p = Inl TypeError" .
    from filter_throwing_error [of p "getMockPreschools w" "location_matches l", OF p(1) this]
    obtain e where "filter_throwing (location_matches l) (getMockPreschools w) = Inl e" ..
    with l(1) have "getRecommendations w (prefs \<lparr> pref_location := Some l \<rparr>) limit = Inl e"
      unfolding getRecommendations_after_location pref_location_update by simp
    then have "\<forall>rs. getRecommendations w (prefs \<lparr> pref_location := Some l \<rparr>) limit \<noteq> Inr rs"
      by simp
    with l(1) show ?thesis by (intro exI [of _ l] conjI)
  qed
  have c1: "(\<forall>loc. loc \<noteq> [] \<longrightarrow>
        (\<exists>rs. getRecommendations w (prefs \<lparr> pref_location := Some loc \<rparr>) limit = Inr rs))
     \<longleftrightarrow> (\<forall>p\<in>set (getMockPreschools w). city p \<noteq> None \<and> zip_code p \<noteq> None)"
  proof
    assume total: "\<forall>loc. loc \<noteq> [] \<longrightarrow>
        (\<exists>rs. getRecommendations w (prefs \<lparr> pref_location := Some loc \<rparr>) limit = Inr rs)"
    show "\<forall>p\<in>set (getMockPreschools w). city p \<noteq> None \<and> zip_code p \<noteq> None"
    proof (rule ballI, rule ccontr)
      fix p assume p: "p \<in> set (getMockPreschools w)"
        and "\<not> (city p \<noteq> None \<and> zip_code p \<noteq> None)"
      then have "city p = None \<or> zip_code p = None" by simp
      from c1b [OF p this] have "\<not> (\<forall>loc. loc \<noteq> [] \<longrightarrow>
        (\<exists>rs. getRecommendations w (prefs \<lparr> pref_location := Some loc \<rparr>) limit = Inr rs))"
        by simp
      with total show False by simp
    qed
  next
    assume "\<forall>p\<in>set (getMockPreschools w). city p \<noteq> None \<and> zip_code p \<noteq> None"
    then show "\<forall>loc. loc \<noteq> [] \<longrightarrow>
        (\<exists>rs. getRecommendations w (prefs \<lparr> pref_location := Some loc \<rparr>) limit = Inr rs)"
      using c1a by simp
  qed
  have c3: "getRecommendations [] (prefs \<lparr> pref_location := Some loc \<rparr>) limit = Inl TypeError
         \<longleftrightarrow> (\<exists>p\<in>set mock_preschools.
                \<not> str_includes (toLowerCase (address p)) (toLowerCase loc))"
    if l: "loc \<noteq> []"
  proof -
    have "\<forall>p\<in>set mock_preschools. location_matches loc p =
            (if str_includes (toLowerCase (address p)) (toLowerCase loc) then Inr True
             else Inl TypeError)"
      using mock_no_city location_matches_mock by blast
    from filter_throwing_all_or_error [OF this]
    show ?thesis
      unfolding getRecommendations_after_location pref_location_update using l
      by (auto simp: getMockPreschools_def)
  qed
  show ?thesis
  proof (intro conjI impI)
    show "(\<forall>loc. loc \<noteq> [] \<longrightarrow>
        (\<exists>rs. getRecommendations w (prefs \<lparr> pref_location := Some loc \<rparr>) limit = Inr rs))
     \<longleftrightarrow> (\<forall>p\<in>set (getMockPreschools w). city p \<noteq> None \<and> zip_code p \<noteq> None)"
      by (rule c1)
    show "\<forall>p\<in>set mock_preschools. city p = None \<and> zip_code p = None"
      by (rule mock_no_city)
    show "getRecommendations [] (prefs \<lparr> pref_location := Some loc \<rparr>) limit = Inl TypeError
         \<longleftrightarrow> (\<exists>p\<in>set mock_preschools.
                \<not> str_includes (toLowerCase (address p)) (toLowerCase loc))"
      if "loc \<noteq> []" using that by (rule c3)
  qed
qed

theorem recommendations_location_guard_witness:
  "getRecommendations [] (location_only ''Palo Alto'') 5 = Inl TypeError
   \<and> (\<exists>rs. getRecommendations [located_record] (location_only ''Palo Alto'') 5 = Inr rs)"
proof -
  have a: "\<exists>p\<in>set mock_preschools.
             \<not> str_includes (toLowerCase (address p)) (toLowerCase ''Palo Alto'')"
    by (simp add: mock_preschools_def address_mock toLowerCase_def lower_char_def)
  have b: "\<forall>p\<in>set (getMockPreschools [located_record]). city p \<noteq> None \<and> zip_code p \<noteq> None"
    by (simp add: getMockPreschools_def located_record_def)
  have c: "(location_only ''Palo Alto'') \<lparr> pref_location := Some ''Palo Alto'' \<rparr>
           = location_only ''Palo Alto''"
    by (simp add: location_only_def)
  have d: "''Palo Alto'' \<noteq> []" by simp
  note g = recommendations_location_guard [of "[located_record]" "location_only ''Palo Alto''" 5
        "''Palo Alto''"]
  from g b d have "\<exists>rs. getRecommendations [located_record]
      ((location_only ''Palo Alto'') \<lparr> pref_location := Some ''Palo Alto'' \<rparr>) 5 = Inr rs"
    by blast
  moreover from g a d have "getRecommendations []
      ((location_only ''Palo Alto'') \<lparr> pref_location := Some ''Palo Alto'' \<rparr>) 5 = Inl TypeError"
    by blast
  ultimately show ?thesis unfolding c by simp
qed

text \<open>
  C10 as stated fails: every address of the built-in set contains \<open>CA\<close>, so the
  recommendation for that location returns the five best-rated records and raises
  nothing.
\<close>

theorem recommendations_location_counterexample:
  "(case getRecommendations [] (location_only ''CA'') 5 of
      Inl e \<Rightarrow> [] | Inr rs \<Rightarrow> map id_field rs) = [''p3'', ''p1'', ''p5'', ''p2'', ''p4'']"
proof -
  have m: "\<forall>p\<in>set mock_preschools. location_matches ''CA'' p = (if True then Inr True else Inl TypeError)"
    by (simp add: mock_preschools_def location_matches_def address_mock toLowerCase_def
        lower_char_def)
  have f: "filter_throwing (location_matches ''CA'') mock_preschools = Inr mock_preschools"
    using filter_throwing_all_or_error [OF m] by simp
  have s: "sort_cmp rating_cmp mock_preschools = [mock_p3, mock_p1, mock_p5, mock_p2, mock_p4, mock_p6]"
    by (simp add: sort_cmp_def mock_preschools_def rating_cmp_def rating_mock)
  have "getRecommendations [] (location_only ''CA'') 5
        = Inr (map (with_reasons (location_only ''CA'')) [mock_p3, mock_p1, mock_p5, mock_p2, mock_p4])"
    by (simp add: getRecommendations_def Let_def location_only_def getMockPreschools_def f s
        slice_def)
  then show ?thesis
    by (simp add: with_reasons_def id_mock)
qed


section \<open>Properties of the flows on the store\<close>

lemma unchanged_since_refl: "unchanged_since s s"
  by (simp add: unchanged_since_def)

lemma new_array_fresh:
  assumes "unchanged_since s0 s"
  shows "fresh_result s0 (new_array rs s)"
  using assms by (simp add: fresh_result_def unchanged_since_def new_array_def)

lemma elements_new_array: "elements (snd (new_array rs s)) (fst (new_array rs s)) = rs"
  by (simp add: elements_def new_array_def)

lemma new_array_fresh_elements:
  assumes "unchanged_since s0 s" "\<forall>r\<in>set rs. next_ref s0 \<le> r"
  shows "fresh_elements s0 (new_array rs s)"
  using assms by (simp add: fresh_elements_def new_array_fresh elements_new_array)

lemma new_object_unchanged:
  assumes "unchanged_since s0 s"
  shows "unchanged_since s0 (snd (new_object p s)) \<and> next_ref s0 \<le> fst (new_object p s)"
  using assms by (simp add: unchanged_since_def new_object_def)

lemma new_objects_unchanged:
  assumes "unchanged_since s0 s"
  shows "unchanged_since s0 (snd (new_objects ps s))
       \<and> (\<forall>r\<in>set (fst (new_objects ps s)). next_ref s0 \<le> r)"
  using assms
proof (induction ps arbitrary: s)
  case Nil
  then show ?case by simp
next
  case (Cons p ps)
  from new_object_unchanged [OF Cons.prems, of p]
  have a: "unchanged_since s0 (snd (new_object p s))" "next_ref s0 \<le> fst (new_object p s)"
    by simp_all
  from Cons.IH [OF a(1)] a(2) show ?case
    by (simp add: split_def Let_def)
qed

lemma fresh_let:
  assumes "fresh_result s0 m" "\<And>a s. fresh_result s0 (a, s) \<Longrightarrow> Q (k a s)"
  shows "Q (let (a, s) = m in k a s)"
  using assms by (cases m) simp

lemma array_spread_fresh: "unchanged_since s0 s \<Longrightarrow> fresh_result s0 (array_spread a s)"
  by (simp add: array_spread_def new_array_fresh)

lemma array_filter_fresh: "unchanged_since s0 s \<Longrightarrow> fresh_result s0 (array_filter P a s)"
  by (simp add: array_filter_def new_array_fresh)

lemma array_slice_fresh: "unchanged_since s0 s \<Longrightarrow> fresh_result s0 (array_slice a i j s)"
  by (simp add: array_slice_def new_array_fresh)

lemma array_map_fresh_elements:
  assumes "unchanged_since s0 s"
  shows "fresh_elements s0 (array_map f a s)"
  using new_objects_unchanged [OF assms, of "map f (object_values s (elements s a))"]
  by (simp add: array_map_def split_def Let_def new_array_fresh_elements)

lemma array_sort_fresh:
  assumes "fresh_result s0 (a, s)"
  shows "fresh_result s0 (array_sort cmp a s)"
  using assms by (auto simp: fresh_result_def unchanged_since_def array_sort_def)

lemma fresh_result_unchanged: "fresh_result s0 (a, s) \<Longrightarrow> unchanged_since s0 s"
  by (simp add: fresh_result_def)

lemma fresh_elements_result: "fresh_elements s0 m \<Longrightarrow> fresh_result s0 m"
  by (simp add: fresh_elements_def)

lemma filter_when_fresh:
  assumes "fresh_result s0 (a, s)"
  shows "fresh_result s0 (filter_when c P a s)"
proof (cases c)
  case True
  from assms have "unchanged_since s0 s" by (rule fresh_result_unchanged)
  then have "fresh_result s0 (array_filter P a s)" by (rule array_filter_fresh)
  with True show ?thesis by (simp add: filter_when_def)
next
  case False
  with assms show ?thesis by (simp add: filter_when_def)
qed

lemma option_filter_fresh:
  assumes "fresh_result s0 (a, s)"
  shows "fresh_result s0 (case opt of None \<Rightarrow> (a, s) | Some v \<Rightarrow> filter_when (c v) (P v) a s)"
  using assms by (simp add: filter_when_fresh split: option.splits)

lemma set_insert_cmp: "set (insert_cmp cmp x xs) = insert x (set xs)"
  by (induction xs) auto

lemma set_sort_cmp: "set (sort_cmp cmp xs) = set xs"
  by (induction xs) (simp_all add: sort_cmp_def set_insert_cmp)

lemma set_slice: "set (slice xs i j) \<subseteq> set xs"
  by (auto simp: slice_def Let_def dest: in_set_takeD in_set_dropD)

lemma array_sort_fresh_elements:
  assumes "fresh_elements s0 (a, s)"
  shows "fresh_elements s0 (array_sort cmp a s)"
proof -
  have "fresh_result s0 (array_sort cmp a s)"
    using assms by (simp add: fresh_elements_def array_sort_fresh)
  moreover have "elements (snd (array_sort cmp a s)) (fst (array_sort cmp a s))
                 = sort_cmp (cmp_refs s cmp) (elements s a)"
    by (simp add: array_sort_def elements_def)
  ultimately show ?thesis
    using assms by (simp add: fresh_elements_def set_sort_cmp)
qed

lemma array_filter_fresh_elements:
  assumes "fresh_elements s0 (a, s)"
  shows "fresh_elements s0 (array_filter P a s)"
proof -
  from assms have u: "unchanged_since s0 s"
    and e: "\<forall>r\<in>set (elements s a). next_ref s0 \<le> r"
    by (simp_all add: fresh_elements_def fresh_result_def)
  from e have "\<forall>r\<in>set (filter (holds s P) (elements s a)). next_ref s0 \<le> r" by simp
  with u show ?thesis unfolding array_filter_def by (rule new_array_fresh_elements)
qed

lemma array_slice_fresh_elements:
  assumes "fresh_elements s0 (a, s)"
  shows "fresh_elements s0 (array_slice a i j s)"
proof -
  from assms have u: "unchanged_since s0 s"
    and e: "\<forall>r\<in>set (elements s a). next_ref s0 \<le> r"
    by (simp_all add: fresh_elements_def fresh_result_def)
  from e have "\<forall>r\<in>set (slice (elements s a) i j). next_ref s0 \<le> r"
    using set_slice [of "elements s a" i j] by blast
  with u show ?thesis unfolding array_slice_def by (rule new_array_fresh_elements)
qed

lemma getMockPreschools_store_unchanged:
  assumes "unchanged_since s0 s"
  shows "unchanged_since s0 (snd (getMockPreschools_store w s))"
proof (cases "length (elements s w) > 0")
  case True
  with assms show ?thesis by (simp add: getMockPreschools_store_def)
next
  case False
  from new_objects_unchanged [OF assms, of mock_preschools]
  have "unchanged_since s0 (snd (new_objects mock_preschools s))" by simp
  then have "fresh_result s0 (new_array (fst (new_objects mock_preschools s))
                                        (snd (new_objects mock_preschools s)))"
    by (rule new_array_fresh)
  with False show ?thesis
    by (simp add: getMockPreschools_store_def split_def Let_def fresh_result_def)
qed

lemma fresh_then_spread: "unchanged_since s0 s \<Longrightarrow> fresh_result s0 (array_spread a s)"
  by (rule array_spread_fresh)

lemma fresh_then_slice: "fresh_result s0 (a, s) \<Longrightarrow> fresh_result s0 (array_slice a i j s)"
  by (rule array_slice_fresh) (rule fresh_result_unchanged)

lemma fresh_then_map: "fresh_result s0 (a, s) \<Longrightarrow> fresh_elements s0 (array_map f a s)"
  by (rule array_map_fresh_elements) (rule fresh_result_unchanged)

lemma unchanged_let:
  assumes "unchanged_since s0 (snd m)" "\<And>a s. unchanged_since s0 s \<Longrightarrow> Q (k a s)"
  shows "Q (let (a, s) = m in k a s)"
  using assms by (cases m) simp

lemma fresh_elements_let:
  assumes "fresh_elements s0 m" "\<And>a s. fresh_elements s0 (a, s) \<Longrightarrow> Q (k a s)"
  shows "Q (let (a, s) = m in k a s)"
  using assms by (cases m) simp

lemma searchPreschools_store_unchanged:
  "unchanged_since s (snd (searchPreschools_store service query f pg limit s))"
proof (cases service)
  case None
  then show ?thesis by (simp add: searchPreschools_store_def unchanged_since_refl)
next
  case (Some w)
  show ?thesis
    unfolding searchPreschools_store_def Some option.case
    apply (rule unchanged_let [OF getMockPreschools_store_unchanged [OF unchanged_since_refl]])
    apply (rule fresh_let [OF fresh_then_spread], assumption)
    apply (rule fresh_let [OF option_filter_fresh], assumption)
    apply (rule fresh_let [OF option_filter_fresh], assumption)
    apply (rule fresh_let [OF option_filter_fresh], assumption)
    apply (rule fresh_let [OF option_filter_fresh], assumption)
    apply (rule fresh_let [OF option_filter_fresh], assumption)
    apply (rule fresh_let [OF fresh_then_slice], assumption)
    apply (simp add: fresh_result_def)
    done
qed

lemma getFeaturedPreschools_store_unchanged:
  "unchanged_since s (snd (getFeaturedPreschools_store w limit s))"
  unfolding getFeaturedPreschools_store_def
  apply (rule unchanged_let [OF getMockPreschools_store_unchanged [OF unchanged_since_refl]])
  apply (rule fresh_let [OF fresh_then_spread], assumption)
  apply (rule fresh_let [OF array_sort_fresh], assumption)
  apply (rule fresh_let [OF fresh_then_slice], assumption)
  apply (simp add: fresh_result_def)
  done

lemma getPreschoolsNearLocation_store_fresh:
  "fresh_elements s (getPreschoolsNearLocation_store w lat lon radius s)"
  unfolding getPreschoolsNearLocation_store_def
  apply (rule fresh_let [OF array_filter_fresh [OF unchanged_since_refl]])
  apply (rule fresh_elements_let [OF fresh_then_map], assumption)
  apply (rule fresh_elements_let [OF array_filter_fresh_elements], assumption)
  apply (rule array_sort_fresh_elements, assumption)
  done

lemma getNearbyPreschools_store_fresh:
  "fresh_objects s (getNearbyPreschools_store w lat lon radius limit s)"
  unfolding getNearbyPreschools_store_def
  apply (rule fresh_elements_let [OF getPreschoolsNearLocation_store_fresh])
  apply (rule fresh_elements_let [OF array_slice_fresh_elements], assumption)
  apply (simp add: fresh_objects_def fresh_elements_def fresh_result_def)
  done

lemma recommend_filtered_fresh:
  assumes "fresh_result s0 (a, s)"
  shows "fresh_objects s0 (recommend_filtered prefs limit a s)"
  unfolding recommend_filtered_def
  apply (rule fresh_let [OF option_filter_fresh], rule assms)
  apply (rule fresh_let [OF option_filter_fresh], assumption)
  apply (rule fresh_let [OF array_sort_fresh], assumption)
  apply (rule fresh_let [OF fresh_then_slice], assumption)
  apply (rule fresh_elements_let [OF fresh_then_map], assumption)
  apply (simp add: fresh_objects_def fresh_elements_def fresh_result_def)
  done

lemma array_filter_throwing_fresh:
  assumes "fresh_result s0 (a, s)"
  shows "fresh_outcome s0 (array_filter_throwing f a s)"
proof -
  from assms have u: "unchanged_since s0 s" by (rule fresh_result_unchanged)
  have "fresh_result s0 (new_array rs s)" for rs using u by (rule new_array_fresh)
  then show ?thesis
    using u by (auto simp: array_filter_throwing_def split_def Let_def fresh_result_def
        fresh_outcome_def split: sum.splits)
qed

lemma location_step_fresh:
  assumes "fresh_result s0 (a, s)"
  shows "fresh_outcome s0
           (case opt of
              None \<Rightarrow> (Inr a, s)
            | Some loc \<Rightarrow>
                if loc \<noteq> [] then array_filter_throwing (location_matches loc) a s
                else (Inr a, s))"
proof -
  have "fresh_outcome s0 (Inr a, s)"
    using assms by (simp add: fresh_outcome_def fresh_result_def)
  then show ?thesis
    using array_filter_throwing_fresh [OF assms] by (simp split: option.splits)
qed

lemma outcome_let:
  assumes "fresh_outcome s0 m"
  shows "fresh_objects s0
           (let (located, s2) = m
            in (case located of
                  Inl e \<Rightarrow> (Inl e, s2)
                | Inr filtered1 \<Rightarrow> recommend_filtered prefs limit filtered1 s2))"
proof (cases m)
  case (Pair located s2)
  show ?thesis
  proof (cases located)
    case (Inl e)
    with Pair assms show ?thesis by (simp add: fresh_outcome_def fresh_objects_def)
  next
    case (Inr filtered1)
    with Pair assms have "fresh_result s0 (filtered1, s2)"
      by (simp add: fresh_outcome_def fresh_result_def)
    then have "fresh_objects s0 (recommend_filtered prefs limit filtered1 s2)"
      by (rule recommend_filtered_fresh)
    with Pair Inr show ?thesis by simp
  qed
qed

lemma getRecommendations_store_fresh:
  "fresh_objects s (getRecommendations_store w prefs limit s)"
  unfolding getRecommendations_store_def
  apply (rule unchanged_let [OF getMockPreschools_store_unchanged [OF unchanged_since_refl]])
  apply (rule fresh_let [OF fresh_then_spread], assumption)
  apply (rule outcome_let)
  apply (rule location_step_fresh, assumption)
  done

lemma holds_values_object_values:
  assumes "holds_values (a, s) vs"
  shows "object_values s (elements s a) = vs"
proof -
  have "List.map_filter f rs = vs" if "map f rs = map Some vs" for f :: "ref \<Rightarrow> preschool option" and rs vs
    using that by (induction rs arbitrary: vs) auto
  with assms show ?thesis by (simp add: holds_values_def object_values_def)
qed

lemma new_array_values:
  assumes "\<forall>r\<in>set rs. r < next_ref s" "map (objects s) rs = map Some vs"
  shows "holds_values (new_array rs s) vs"
  using assms by (auto simp: holds_values_def new_array_def elements_def less_Suc_eq)

lemma values_let:
  assumes "holds_values m vs" "\<And>a s. holds_values (a, s) vs \<Longrightarrow> Q (k a s)"
  shows "Q (let (a, s) = m in k a s)"
  using assms by (cases m) simp

lemma array_spread_values:
  assumes "holds_values (a, s) vs"
  shows "holds_values (array_spread a s) vs"
  unfolding array_spread_def
  using assms by (intro new_array_values) (simp_all add: holds_values_def)

lemma filter_holds:
  assumes "map (objects s) rs = map Some vs"
  shows "map (objects s) (filter (holds s P) rs) = map Some (filter P vs)"
  using assms by (induction rs arbitrary: vs) (auto simp: holds_def)

lemma array_filter_values:
  assumes "holds_values (a, s) vs"
  shows "holds_values (array_filter P a s) (filter P vs)"
  unfolding array_filter_def
  using assms by (intro new_array_values filter_holds) (simp_all add: holds_values_def)

lemma filter_when_values:
  assumes "holds_values (a, s) vs"
  shows "holds_values (filter_when c P a s) (if c then filter P vs else vs)"
  using assms by (simp add: filter_when_def array_filter_values)

lemma slice_map: "slice (map f xs) i j = map f (slice xs i j)"
  by (simp add: slice_def Let_def take_map drop_map)

lemma array_slice_values:
  assumes "holds_values (a, s) vs"
  shows "holds_values (array_slice a i j s) (slice vs i j)"
  unfolding array_slice_def
proof (intro new_array_values)
  show "\<forall>r\<in>set (slice (elements s a) i j). r < next_ref s"
    using assms set_slice [of "elements s a" i j] by (auto simp: holds_values_def)
  have "map (objects s) (slice (elements s a) i j) = slice (map (objects s) (elements s a)) i j"
    by (simp add: slice_map)
  also have "\<dots> = slice (map Some vs) i j" using assms by (simp add: holds_values_def)
  finally show "map (objects s) (slice (elements s a) i j) = map Some (slice vs i j)"
    by (simp add: slice_map)
qed

lemma insert_cmp_map:
  assumes "\<forall>y\<in>set xs. c x y = cmp (f x) (f y)"
  shows "map f (insert_cmp c x xs) = insert_cmp cmp (f x) (map f xs)"
  using assms by (induction xs) simp_all

lemma sort_cmp_map:
  assumes "\<forall>x\<in>set xs. \<forall>y\<in>set xs. c x y = cmp (f x) (f y)"
  shows "map f (sort_cmp c xs) = sort_cmp cmp (map f xs)"
  using assms
proof (induction xs)
  case Nil
  show ?case by (simp add: sort_cmp_def)
next
  case (Cons x xs)
  then have ih: "map f (sort_cmp c xs) = sort_cmp cmp (map f xs)" by simp
  have "\<forall>y\<in>set (sort_cmp c xs). c x y = cmp (f x) (f y)"
    using Cons.prems by (simp add: set_sort_cmp)
  then have "map f (insert_cmp c x (sort_cmp c xs)) = insert_cmp cmp (f x) (map f (sort_cmp c xs))"
    by (rule insert_cmp_map)
  with ih show ?case by (simp add: sort_cmp_def)
qed

lemma sort_cmp_Some: "sort_cmp (\<lambda>x y. case (x, y) of (Some p, Some q) \<Rightarrow> cmp p q | _ \<Rightarrow> 0) (map Some vs)
   = map Some (sort_cmp cmp vs)"
  by (rule sort_cmp_map [symmetric]) simp

lemma array_sort_values:
  assumes "holds_values (a, s) vs"
  shows "holds_values (array_sort cmp a s) (sort_cmp cmp vs)"
proof -
  let ?rs = "elements s a"
  have m: "map (objects s) ?rs = map Some vs" using assms by (simp add: holds_values_def)
  have "map (objects s) (sort_cmp (cmp_refs s cmp) ?rs)
        = sort_cmp (\<lambda>x y. case (x, y) of (Some p, Some q) \<Rightarrow> cmp p q | _ \<Rightarrow> 0)
            (map (objects s) ?rs)"
    by (rule sort_cmp_map) (simp add: cmp_refs_def)
  also have "\<dots> = map Some (sort_cmp cmp vs)" unfolding m by (rule sort_cmp_Some)
  finally have v: "map (objects s) (sort_cmp (cmp_refs s cmp) ?rs) = map Some (sort_cmp cmp vs)" .
  have "\<forall>r\<in>set (sort_cmp (cmp_refs s cmp) ?rs). r < next_ref s"
    using assms by (simp add: set_sort_cmp holds_values_def)
  with v assms show ?thesis
    by (simp add: holds_values_def array_sort_def elements_def)
qed

lemma new_objects_values:
  "(\<forall>r\<in>set (fst (new_objects ps s)). r < next_ref (snd (new_objects ps s)))
   \<and> map (objects (snd (new_objects ps s))) (fst (new_objects ps s)) = map Some ps
   \<and> next_ref s \<le> next_ref (snd (new_objects ps s))
   \<and> (\<forall>r<next_ref s. objects (snd (new_objects ps s)) r = objects s r)
   \<and> arrays (snd (new_objects ps s)) = arrays s"
proof (induction ps arbitrary: s)
  case Nil
  show ?case by simp
next
  case (Cons p ps)
  define s1 where "s1 = snd (new_object p s)"
  have r: "fst (new_object p s) = next_ref s" by (simp add: new_object_def)
  have n1: "next_ref s1 = Suc (next_ref s)" by (simp add: s1_def new_object_def)
  have o1: "objects s1 (next_ref s) = Some p" by (simp add: s1_def new_object_def)
  have k1: "\<forall>r<next_ref s. objects s1 r = objects s r" by (simp add: s1_def new_object_def)
  have a1: "arrays s1 = arrays s" by (simp add: s1_def new_object_def)
  note ih = Cons.IH [of s1]
  have e: "new_objects (p # ps) s
           = (next_ref s # fst (new_objects ps s1), snd (new_objects ps s1))"
    by (simp add: split_def Let_def r s1_def)
  from ih have "objects (snd (new_objects ps s1)) (next_ref s) = Some p"
    using o1 n1 by simp
  with ih n1 k1 a1 show ?case
    unfolding e by (auto simp: less_Suc_eq_le)
qed

lemma array_map_values:
  assumes "holds_values (a, s) vs"
  shows "holds_values (array_map f a s) (map f vs)"
proof -
  have ov: "object_values s (elements s a) = vs"
    using assms by (rule holds_values_object_values)
  note n = new_objects_values [of "map f vs" s]
  show ?thesis
    unfolding array_map_def ov split_def Let_def
    using n by (intro new_array_values) simp_all
qed


lemma holds_values_length:
  assumes "holds_values (a, s) vs"
  shows "length (elements s a) = length vs"
proof -
  from assms have "map (objects s) (elements s a) = map Some vs" by (simp add: holds_values_def)
  then have "length (map (objects s) (elements s a)) = length (map Some vs)" by simp
  then show ?thesis by simp
qed

lemma getMockPreschools_store_values:
  assumes "holds_values (w, s) vs"
  shows "holds_values (getMockPreschools_store w s) (getMockPreschools vs)"
proof (cases "length vs > 0")
  case True
  with assms holds_values_length [OF assms] show ?thesis
    by (simp add: getMockPreschools_store_def getMockPreschools_def)
next
  case False
  note n = new_objects_values [of mock_preschools s]
  have "holds_values (new_array (fst (new_objects mock_preschools s))
                                (snd (new_objects mock_preschools s))) mock_preschools"
    using n by (intro new_array_values) simp_all
  with False holds_values_length [OF assms] show ?thesis
    by (simp add: getMockPreschools_store_def getMockPreschools_def split_def Let_def)
qed

lemma option_filter_values:
  assumes "holds_values (a, s) vs"
  shows "holds_values (case opt of None \<Rightarrow> (a, s) | Some v \<Rightarrow> filter_when (c v) (P v) a s)
           (case opt of None \<Rightarrow> vs | Some v \<Rightarrow> if c v then filter (P v) vs else vs)"
  using assms by (simp add: filter_when_values split: option.splits)

lemma searchPreschools_store_values:
  assumes "holds_values (w, s) vs"
  shows "returns_values (searchPreschools_store (Some w) query f pg limit s)
           (results (paginate (search_filtered (getMockPreschools vs) query f) pg limit))"
  unfolding searchPreschools_store_def option.case
  apply (rule values_let [OF getMockPreschools_store_values [OF assms]])
  apply (rule values_let [OF array_spread_values], assumption)
  apply (rule values_let [OF option_filter_values], assumption)
  apply (rule values_let [OF option_filter_values], assumption)
  apply (rule values_let [OF option_filter_values], assumption)
  apply (rule values_let [OF option_filter_values], assumption)
  apply (rule values_let [OF option_filter_values], assumption)
  apply (rule values_let [OF array_slice_values], assumption)
  apply (simp add: returns_values_def search_filtered_def paginate_def Let_def)
  done

lemma getFeaturedPreschools_store_values:
  assumes "holds_values (w, s) vs"
  shows "returns_values (getFeaturedPreschools_store w limit s) (getFeaturedPreschools vs limit)"
  unfolding getFeaturedPreschools_store_def
  apply (rule values_let [OF getMockPreschools_store_values [OF assms]])
  apply (rule values_let [OF array_spread_values], assumption)
  apply (rule values_let [OF array_sort_values], assumption)
  apply (rule values_let [OF array_slice_values], assumption)
  apply (simp add: returns_values_def getFeaturedPreschools_def Let_def)
  done

lemma getPreschoolsNearLocation_store_values:
  assumes "holds_values (w, s) vs"
  shows "holds_values (getPreschoolsNearLocation_store w lat lon radius s)
           (getPreschoolsNearLocation vs lat lon radius)"
  unfolding getPreschoolsNearLocation_store_def
  apply (rule values_let [OF array_filter_values [OF assms]])
  apply (rule values_let [OF array_map_values], assumption)
  apply (rule values_let [OF array_filter_values], assumption)
  apply (simp add: getPreschoolsNearLocation_def Let_def array_sort_values)
  done

lemma getNearbyPreschools_store_values:
  assumes "holds_values (w, s) vs"
  shows "returns_values (getNearbyPreschools_store w lat lon radius limit s)
           (getNearbyPreschools vs lat lon radius limit)"
  unfolding getNearbyPreschools_store_def
  apply (rule values_let [OF getPreschoolsNearLocation_store_values [OF assms]])
  apply (rule values_let [OF array_slice_values], assumption)
  apply (simp add: returns_values_def getNearbyPreschools_def Let_def)
  done
lemma filter_throwing_refs:
  assumes "map (objects s) rs = map Some vs"
  shows "case filter_throwing f vs of
           Inl e \<Rightarrow>
             filter_throwing (\<lambda>r. case objects s r of None \<Rightarrow> Inl TypeError | Some p \<Rightarrow> f p) rs
               = Inl e
         | Inr ys \<Rightarrow>
             (\<exists>rs'. filter_throwing
                       (\<lambda>r. case objects s r of None \<Rightarrow> Inl TypeError | Some p \<Rightarrow> f p) rs
                       = Inr rs'
                    \<and> map (objects s) rs' = map Some ys \<and> set rs' \<subseteq> set rs)"
  using assms
proof (induction rs arbitrary: vs)
  case Nil
  then show ?case by simp
next
  case (Cons r rs)
  then obtain v vs' where vs: "vs = v # vs'" "objects s r = Some v"
    "map (objects s) rs = map Some vs'"
    by (cases vs) auto
  from Cons.IH [OF vs(3)] show ?case
    unfolding vs(1) using vs(2)
    by (cases "f v"; cases "filter_throwing f vs'") auto
qed

lemma array_filter_throwing_values:
  assumes "holds_values (a, s) vs"
  shows "agrees (array_filter_throwing f a s) (filter_throwing f vs)"
proof -
  from assms have m: "map (objects s) (elements s a) = map Some vs"
    and b: "\<forall>r\<in>set (elements s a). r < next_ref s"
    by (simp_all add: holds_values_def)
  note t = filter_throwing_refs [OF m, of f]
  show ?thesis
  proof (cases "filter_throwing f vs")
    case (Inl e)
    with t show ?thesis by (simp add: agrees_def array_filter_throwing_def)
  next
    case (Inr ys)
    with t obtain rs' where r:
      "filter_throwing (\<lambda>r. case objects s r of None \<Rightarrow> Inl TypeError | Some p \<Rightarrow> f p)
         (elements s a) = Inr rs'"
      "map (objects s) rs' = map Some ys" "set rs' \<subseteq> set (elements s a)"
      by auto
    from r(3) b have "\<forall>r\<in>set rs'. r < next_ref s" by blast
    then have "holds_values (new_array rs' s) ys" using r(2) by (rule new_array_values)
    with Inr r(1) show ?thesis
      by (simp add: agrees_def returns_values_def array_filter_throwing_def split_def Let_def)
  qed
qed

lemma recommend_filtered_values:
  assumes "holds_values (a, s) vs"
  shows "returns_values (recommend_filtered prefs limit a s)
           (map (with_reasons prefs)
              (slice (sort_cmp rating_cmp
                 (case pref_curriculum prefs of
                    None \<Rightarrow> (case pref_minRating prefs of
                                None \<Rightarrow> vs
                              | Some m \<Rightarrow> if m \<noteq> 0 then filter (\<lambda>p. rating p \<ge> m) vs else vs)
                  | Some c \<Rightarrow>
                      if c \<noteq> []
                      then filter (\<lambda>p. curriculum_includes (curriculum p) c)
                             (case pref_minRating prefs of
                                None \<Rightarrow> vs
                              | Some m \<Rightarrow> if m \<noteq> 0 then filter (\<lambda>p. rating p \<ge> m) vs else vs)
                      else (case pref_minRating prefs of
                                None \<Rightarrow> vs
                              | Some m \<Rightarrow> if m \<noteq> 0 then filter (\<lambda>p. rating p \<ge> m) vs else vs)))
                 0 limit))"
  unfolding recommend_filtered_def
  apply (rule values_let [OF option_filter_values], rule assms)
  apply (rule values_let [OF option_filter_values], assumption)
  apply (rule values_let [OF array_sort_values], assumption)
  apply (rule values_let [OF array_slice_values], assumption)
  apply (rule values_let [OF array_map_values], assumption)
  apply (simp add: returns_values_def)
  done

lemma getRecommendations_store_values:
  assumes "holds_values (w, s) vs"
  shows "agrees (getRecommendations_store w prefs limit s) (getRecommendations vs prefs limit)"
  unfolding getRecommendations_store_def
  apply (rule values_let [OF getMockPreschools_store_values [OF assms]])
  apply (rule values_let [OF array_spread_values], assumption)
  subgoal for preschools s0 filtered0 s1
  proof -
    assume h: "holds_values (filtered0, s1) (getMockPreschools vs)"
    define m where "m = (case pref_location prefs of
               None \<Rightarrow> (Inr filtered0, s1)
             | Some loc \<Rightarrow>
                 if loc \<noteq> [] then array_filter_throwing (location_matches loc) filtered0 s1
                 else (Inr filtered0, s1))"
    define r where "r = (case pref_location prefs of
                 None \<Rightarrow> Inr (getMockPreschools vs)
               | Some loc \<Rightarrow>
                   if loc \<noteq> [] then filter_throwing (location_matches loc) (getMockPreschools vs)
                   else Inr (getMockPreschools vs))"
    have mr: "agrees m r"
      using h array_filter_throwing_values [OF h]
      by (simp add: m_def r_def agrees_def returns_values_def split: option.splits)
    have g: "getRecommendations vs prefs limit =
               (case r of Inl e \<Rightarrow> Inl e
                | Inr filtered1 \<Rightarrow> Inr (map (with_reasons prefs)
              (slice (sort_cmp rating_cmp
                 (case pref_curriculum prefs of
                    None \<Rightarrow> (case pref_minRating prefs of
                                None \<Rightarrow> filtered1
                              | Some m \<Rightarrow> if m \<noteq> 0 then filter (\<lambda>p. rating p \<ge> m) filtered1 else filtered1)
                  | Some c \<Rightarrow>
                      if c \<noteq> []
                      then filter (\<lambda>p. curriculum_includes (curriculum p) c)
                             (case pref_minRating prefs of
                                None \<Rightarrow> filtered1
                              | Some m \<Rightarrow> if m \<noteq> 0 then filter (\<lambda>p. rating p \<ge> m) filtered1 else filtered1)
                      else (case pref_minRating prefs of
                                None \<Rightarrow> filtered1
                              | Some m \<Rightarrow> if m \<noteq> 0 then filter (\<lambda>p. rating p \<ge> m) filtered1 else filtered1)))
                 0 limit)))"
      by (simp add: getRecommendations_def Let_def r_def split: option.splits sum.splits)
    show "agrees (let (located, s2) = m
                  in case located of Inl e \<Rightarrow> (Inl e, s2)
                     | Inr filtered1 \<Rightarrow> recommend_filtered prefs limit filtered1 s2)
            (getRecommendations vs prefs limit)"
    proof (cases r)
      case (Inl e)
      with mr have "fst m = Inl e" by (simp add: agrees_def)
      with Inl show ?thesis unfolding g by (cases m) (simp add: agrees_def)
    next
      case (Inr filtered1)
      with mr obtain a where a: "fst m = Inr a" "holds_values (a, snd m) filtered1"
        by (auto simp: agrees_def returns_values_def split: sum.splits)
      from recommend_filtered_values [OF a(2), of prefs limit] a(1) Inr
      show ?thesis unfolding g by (cases m) (simp add: agrees_def)
    qed
  qed
  done

lemma run_flow_agrees:
  assumes "holds_values (w, s) vs"
  shows "agrees (run_flow req w s) (run_pure req vs)"
proof (cases req)
  case (Search query f pg limit)
  with searchPreschools_store_values [OF assms, of query f pg limit]
  show ?thesis by (simp add: agrees_def searchPreschools_def)
next
  case (Recommend prefs limit)
  with getRecommendations_store_values [OF assms, of prefs limit]
  show ?thesis by simp
next
  case (Featured limit)
  with getFeaturedPreschools_store_values [OF assms, of limit]
  show ?thesis by (simp add: agrees_def)
next
  case (Nearby lat lon radius limit)
  with getNearbyPreschools_store_values [OF assms, of lat lon radius limit]
  show ?thesis by (simp add: agrees_def)
qed
lemma map_Some_member:
  assumes "map f xs = map Some ys" "x \<in> set xs"
  shows "\<exists>y\<in>set ys. f x = Some y"
  using assms by (induction xs arbitrary: ys) auto

lemma getRecommendations_reasons:
  assumes "getRecommendations vs prefs limit = Inr rs"
  shows "\<forall>p\<in>set rs. matchReasons p \<noteq> None"
  using assms
  by (auto simp: getRecommendations_def Let_def with_reasons_def split: sum.splits)

lemma getNearbyPreschools_distance:
  "\<forall>p\<in>set (getNearbyPreschools vs lat lon radius limit). distance p \<noteq> None"
proof
  fix p assume "p \<in> set (getNearbyPreschools vs lat lon radius limit)"
  then have "p \<in> set (getPreschoolsNearLocation vs lat lon radius)"
    using set_slice by (fastforce simp: getNearbyPreschools_def Let_def)
  then have "p \<in> set (map (attach_distance lat lon) (filter (within_radius lat lon radius) vs))"
    by (simp add: getPreschoolsNearLocation_sorted_candidates set_sort_cmp)
  from candidate_distance [OF this] show "distance p \<noteq> None" by auto
qed

lemma run_pure_attribute:
  assumes "run_pure req vs = Inr rs" "attaches_attribute req"
  shows "\<forall>p\<in>set rs. has_attribute req p"
proof (cases req)
  case (Recommend prefs limit)
  with assms(1) getRecommendations_reasons show ?thesis by simp
next
  case (Nearby lat lon radius limit)
  with assms(1) getNearbyPreschools_distance [of vs lat lon radius limit]
  show ?thesis by auto
qed (use assms(2) in simp_all)

lemma run_flow_unchanged: "unchanged_since s (snd (run_flow req warehouse s))"
proof (cases req)
  case (Search query f pg limit)
  then show ?thesis by (simp add: searchPreschools_store_unchanged)
next
  case (Recommend prefs limit)
  then show ?thesis using getRecommendations_store_fresh by (simp add: fresh_objects_def)
next
  case (Featured limit)
  then show ?thesis by (simp add: getFeaturedPreschools_store_unchanged)
next
  case (Nearby lat lon radius limit)
  then show ?thesis using getNearbyPreschools_store_fresh by (simp add: fresh_objects_def)
qed

lemma run_flow_fresh_objects:
  assumes "attaches_attribute req" "fst (run_flow req warehouse s) = Inr a"
  shows "\<forall>r\<in>set (elements (snd (run_flow req warehouse s)) a). next_ref s \<le> r"
proof (cases req)
  case (Recommend prefs limit)
  with assms(2) getRecommendations_store_fresh [of s warehouse prefs limit]
  show ?thesis by (simp add: fresh_objects_def)
next
  case (Nearby lat lon radius limit)
  with assms(2) getNearbyPreschools_store_fresh [of s warehouse lat lon radius limit]
  show ?thesis by (simp add: fresh_objects_def)
qed (use assms(1) in simp_all)

lemma home_record_coordinates:
  "latitude home_record = Some 37.4419" "longitude home_record = Some (- 122.143)"
  by (simp_all add: home_record_def blank_preschool_def)

lemma home_record_rounded: "rounded_distance 37.4419 (- 122.143) home_record = Some 0"
  by (simp add: rounded_distance_def home_record_coordinates calculateDistance_same toFixed1_def)

lemma home_record_nonzero: "has_nonzero_coordinates home_record"
  by (simp add: has_nonzero_coordinates_def home_record_coordinates)

text \<open>
  The store does record a mutation: a \<open>sort\<close> applied to the warehouse array itself
  reorders the record set, whereas the featured flow, which sorts a copy, leaves it in
  its order.
\<close>

lemma sort_of_warehouse_reorders:
  "arrays (snd (array_sort featured_cmp 2 ranking_store)) 2 = Some [1, 0]
   \<and> arrays (snd (getFeaturedPreschools_store 2 1 ranking_store)) 2 = Some [0, 1]"
proof -
  have "featured_cmp scenario3_second scenario3_first > 0"
    using ln_score
    by (simp add: featured_cmp_def scenario3_first_def scenario3_second_def
        blank_preschool_def Let_def)
  then have "arrays (snd (array_sort featured_cmp 2 ranking_store)) 2 = Some [1, 0]"
    by (simp add: array_sort_def ranking_store_def elements_def sort_cmp_def cmp_refs_def)
  moreover have "arrays (snd (getFeaturedPreschools_store 2 1 ranking_store)) 2
                 = arrays ranking_store 2"
    using getFeaturedPreschools_store_unchanged [of ranking_store 2 1]
    by (simp add: unchanged_since_def ranking_store_def)
  ultimately show ?thesis by (simp add: ranking_store_def)
qed

text \<open>
  C9. No query flow (search, recommend, featured, nearby) mutates the record set: after
  the flow, whether it returned or raised, the warehouse array holds the same references
  in the same order and each of them names the same, unchanged record, so for the same
  values as before. The objects that the recommend and the nearby flow return are not
  records of the set: they are copies allocated by the flow, and they carry the
  request-scoped attribute (\<open>matchReasons\<close>, \<open>distance\<close>), which is set on no record
  of the set.
\<close>

theorem flows_leave_records_unchanged:
  assumes "holds_values (warehouse, s) vs"
  shows "holds_values (warehouse, snd (run_flow req warehouse s)) vs
       \<and> arrays (snd (run_flow req warehouse s)) warehouse = arrays s warehouse
       \<and> (\<forall>r\<in>set (elements s warehouse).
             objects (snd (run_flow req warehouse s)) r = objects s r)
       \<and> (attaches_attribute req \<longrightarrow>
            (\<forall>a. fst (run_flow req warehouse s) = Inr a \<longrightarrow>
               (\<forall>r\<in>set (elements (snd (run_flow req warehouse s)) a).
                  r \<notin> set (elements s warehouse)
                  \<and> (\<exists>p. objects (snd (run_flow req warehouse s)) r = Some p
                          \<and> has_attribute req p))))"
proof -
  define s' where "s' = snd (run_flow req warehouse s)"
  from assms have w: "warehouse < next_ref s"
    and e: "\<forall>r\<in>set (elements s warehouse). r < next_ref s"
    and m: "map (objects s) (elements s warehouse) = map Some vs"
    by (simp_all add: holds_values_def)
  have u: "unchanged_since s s'" unfolding s'_def by (rule run_flow_unchanged)
  from u w have c2: "arrays s' warehouse = arrays s warehouse"
    by (simp add: unchanged_since_def)
  from u e have c3: "\<forall>r\<in>set (elements s warehouse). objects s' r = objects s r"
    by (simp add: unchanged_since_def)
  from c2 have el: "elements s' warehouse = elements s warehouse" by (simp add: elements_def)
  from c3 have "map (objects s') (elements s warehouse) = map (objects s) (elements s warehouse)"
    by simp
  with m el u w e have c1: "holds_values (warehouse, s') vs"
    by (auto simp: holds_values_def unchanged_since_def)
  have c4: "r \<notin> set (elements s warehouse) \<and> (\<exists>p. objects s' r = Some p \<and> has_attribute req p)"
    if att: "attaches_attribute req" and res: "fst (run_flow req warehouse s) = Inr a"
      and r: "r \<in> set (elements s' a)" for a r
  proof -
    from run_flow_fresh_objects [OF att res] r have "next_ref s \<le> r" by (simp add: s'_def)
    with e have fresh: "r \<notin> set (elements s warehouse)" by auto
    from run_flow_agrees [OF assms, of req] res
    obtain rs where p: "run_pure req vs = Inr rs" and h: "holds_values (a, s') rs"
      by (cases "run_pure req vs") (auto simp: agrees_def returns_values_def s'_def)
    from h have "map (objects s') (elements s' a) = map Some rs" by (simp add: holds_values_def)
    from map_Some_member [OF this r] obtain p where "p \<in> set rs" "objects s' r = Some p" by blast
    with run_pure_attribute [OF p att] fresh show ?thesis by blast
  qed
  from c1 c2 c3 c4 show ?thesis unfolding s'_def by blast
qed

text \<open>
  A nearby request on the example store: the result array 6 holds the copy 3 with its
  distance, and the record 0 and the warehouse array 1 are as before.
\<close>

theorem flows_leave_records_unchanged_witness:
  "holds_values (1, example_store) [home_record]
   \<and> arrays (snd (run_flow (Nearby 37.4419 (- 122.143) 5 1) 1 example_store)) 1 = Some [0]
   \<and> objects (snd (run_flow (Nearby 37.4419 (- 122.143) 5 1) 1 example_store)) 0
       = Some home_record
   \<and> fst (run_flow (Nearby 37.4419 (- 122.143) 5 1) 1 example_store) = Inr 6
   \<and> elements (snd (run_flow (Nearby 37.4419 (- 122.143) 5 1) 1 example_store)) 6 = [3]
   \<and> objects (snd (run_flow (Nearby 37.4419 (- 122.143) 5 1) 1 example_store)) 3
       = Some (home_record \<lparr> distance := Some 0 \<rparr>)"
proof -
  have h: "holds_values (1, example_store) [home_record]"
    by (simp add: holds_values_def example_store_def elements_def)
  have a: "attach_distance 37.4419 (- 122.143) home_record = home_record \<lparr> distance := Some 0 \<rparr>"
    using home_record_rounded by (simp add: attach_distance_def)
  have d: "distance_within 5 (home_record \<lparr> distance := Some 0 \<rparr>)"
    by (simp add: distance_within_def)
  have run: "run_flow (Nearby 37.4419 (- 122.143) 5 1) 1 example_store
    = (Inr 6, \<lparr> objects = Map.empty(0 \<mapsto> home_record, 3 \<mapsto> home_record \<lparr> distance := Some 0 \<rparr>),
                arrays = Map.empty(1 \<mapsto> [0], 2 \<mapsto> [0], 4 \<mapsto> [3], 5 \<mapsto> [3], 6 \<mapsto> [3]),
                next_ref = 7 \<rparr>)"
    using home_record_nonzero a d
    by (simp add: getNearbyPreschools_store_def getPreschoolsNearLocation_store_def
        array_filter_def array_map_def array_sort_def array_slice_def new_array_def
        new_object_def elements_def object_values_def holds_def example_store_def
        sort_cmp_def slice_def Let_def)
  from flows_leave_records_unchanged [OF h, of "Nearby 37.4419 (- 122.143) 5 1"] h
  show ?thesis
    unfolding run by (simp add: example_store_def elements_def)
qed

end
